theory Spec2Isabelle
  imports Main "HOL-Library.AList"
begin

section \<open>JavaScript values\<close>

text \<open>
  Request bodies, JWT payloads, query parameters and response bodies are JavaScript values.
  Numbers are integers here (the code only handles timestamps, status codes and the
  \<open>exp\<close> claim), and \<open>NaN\<close> is not represented.
\<close>

datatype json =
    JUndefined
  | JNull
  | JBool bool
  | JNum int
  | JStr string
  | JObj "(string \<times> json) list"

text \<open>JavaScript truthiness, as used by \<open>!x\<close>, \<open>x || y\<close> and \<open>x && y\<close>.\<close>

fun truthy :: "json \<Rightarrow> bool" where
  "truthy JUndefined = False"
| "truthy JNull = False"
| "truthy (JBool b) = b"
| "truthy (JNum n) = (n \<noteq> 0)"
| "truthy (JStr s) = (s \<noteq> [])"
| "truthy (JObj kvs) = True"

text \<open>
  Property read \<open>v?.k\<close>: \<open>undefined\<close> on \<open>null\<close> and \<open>undefined\<close>, and
  \<open>undefined\<close> on a primitive for the property names read in this code. The plain
  read \<open>v.k\<close> is the same function wherever the code has already established that
  \<open>v\<close> is an object.
\<close>

fun field :: "string \<Rightarrow> json \<Rightarrow> json" where
  "field k (JObj kvs) = (case map_of kvs k of Some v \<Rightarrow> v | None \<Rightarrow> JUndefined)"
| "field k v = JUndefined"

text \<open>
  Strict equality \<open>a === b\<close>: primitives compare by type and value, two objects
  only by reference. The objects compared in this code come from different sources (a
  token payload and a request parameter), so they are never the same reference.
\<close>

fun js_strict_eq :: "json \<Rightarrow> json \<Rightarrow> bool" where
  "js_strict_eq (JObj a) b = False"
| "js_strict_eq a b = (a = b)"

definition is_object :: "json \<Rightarrow> bool" where
  \<comment> \<open>\<open>typeof v === "object"\<close>, which also holds of \<open>null\<close>\<close>
  "is_object v = (case v of JObj kvs \<Rightarrow> True | JNull \<Rightarrow> True | _ \<Rightarrow> False)"

definition is_string :: "json \<Rightarrow> bool" where
  "is_string v = (case v of JStr s \<Rightarrow> True | _ \<Rightarrow> False)"

section \<open>HTTP errors (utils/httpErrors.js)\<close>

record http_error =
  statusCode :: nat
  message :: string
  errorCode :: string

definition createHttpError :: "nat \<Rightarrow> string \<Rightarrow> string \<Rightarrow> http_error" where
  "createHttpError status msg code = \<lparr>statusCode = status, message = msg, errorCode = code\<rparr>"

definition badRequest :: "string \<Rightarrow> string \<Rightarrow> http_error" where
  "badRequest msg code = createHttpError 400 msg code"

definition forbidden :: "string \<Rightarrow> http_error" where
  "forbidden msg = createHttpError 403 msg ''FORBIDDEN''"

section \<open>Tenant scope resolver (utils/schoolScope.js)\<close>

text \<open>
  The first argument is \<open>req.user\<close>, the identity that the authenticator attached to
  the request (\<open>undefined\<close> when there is none). A \<open>throw\<close> is the \<open>Inl\<close> branch.
\<close>

definition isSuperadmin :: "json \<Rightarrow> bool" where
  "isSuperadmin req_user = js_strict_eq (field ''role'' req_user) (JStr ''SUPERADMIN'')"

definition resolveSchoolId :: "json \<Rightarrow> json \<Rightarrow> bool \<Rightarrow> http_error + json" where
  "resolveSchoolId req_user schoolIdInput requireForSuperadmin =
     (if isSuperadmin req_user then
        (let schoolId = (if truthy schoolIdInput then schoolIdInput else JNull) in
         if requireForSuperadmin \<and> \<not> truthy schoolId
         then Inl (badRequest ''schoolId is required for SUPERADMIN'' ''SCHOOL_CONTEXT_REQUIRED'')
         else Inr schoolId)
      else if \<not> truthy (field ''schoolId'' req_user)
      then Inl (forbidden ''School context is missing for current user'')
      else if truthy schoolIdInput \<and> \<not> js_strict_eq schoolIdInput (field ''schoolId'' req_user)
      then Inl (forbidden ''Cannot access another school's data'')
      else Inr (field ''schoolId'' req_user))"


section \<open>Configuration and library interfaces\<close>

text \<open>Times are milliseconds since the epoch, the value of a JavaScript \<open>Date\<close>.\<close>

type_synonym time = int

text \<open>The fields of \<open>config/env.js\<close> that the authentication code reads.\<close>

record env =
  NODE_ENV :: string
  JWT_ACCESS_SECRET :: string
  JWT_REFRESH_SECRET :: string
  PASSWORD_RESET_SECRET :: "string option"
  ACCESS_TOKEN_EXPIRES_IN :: string
  REFRESH_TOKEN_EXPIRES_IN :: string
  PASSWORD_RESET_TOKEN_EXPIRES_IN :: string
  PASSWORD_RESET_OTP_EXPIRES_MINUTES :: int

text \<open>
  The errors of \<open>jsonwebtoken\<close>'s \<open>verify\<close>, told apart by \<open>error.name\<close>.
\<close>

datatype jwt_error = TokenExpiredError | JsonWebTokenError | NotBeforeError

text \<open>
  The third-party functions the code calls are parameters of the model; every theorem
  holds for all of them. \<open>jwt_verify token secret now\<close> is \<open>jwt.verify\<close> with HS256 at
  time \<open>now\<close> (\<open>Inl\<close> when it throws), \<open>jwt_sign payload secret expiresIn now\<close> is
  \<open>jwt.sign\<close>, \<open>jwt_decode\<close> is \<open>jwt.decode\<close> (\<open>null\<close> on a malformed token),
  \<open>sha256_hex\<close> is the SHA-256 hex digest, \<open>bcrypt_hash password salt\<close> is
  \<open>bcrypt.hash\<close> with the salt it drew, \<open>bcrypt_compare\<close> is \<open>bcrypt.compare\<close>,
  \<open>zod_email\<close> is the test of \<open>z.string().email()\<close>, \<open>toLowerCase\<close> the string
  method and \<open>toISOString\<close> the method of \<open>Date\<close>. The mail service (\<open>services/mailer\<close>) is a parameter as well:
  \<open>sendPasswordResetOtpEmail to otp minutes\<close> is true when the call resolves and false
  when it rejects.
\<close>

record lib =
  jwt_verify :: "string \<Rightarrow> string \<Rightarrow> time \<Rightarrow> jwt_error + json"
  jwt_sign :: "json \<Rightarrow> string \<Rightarrow> string \<Rightarrow> time \<Rightarrow> string"
  jwt_decode :: "string \<Rightarrow> json"
  sha256_hex :: "string \<Rightarrow> string"
  bcrypt_hash :: "string \<Rightarrow> string \<Rightarrow> string"
  bcrypt_compare :: "string \<Rightarrow> string \<Rightarrow> bool"
  zod_email :: "string \<Rightarrow> bool"
  toLowerCase :: "string \<Rightarrow> string"
  toISOString :: "time \<Rightarrow> string"
  isMailerConfigured :: bool
  sendPasswordResetOtpEmail :: "string \<Rightarrow> string \<Rightarrow> int \<Rightarrow> bool"

text \<open>
  What a single request draws from its surroundings: the clock reading (one per request;
  the stored timestamps are only ever tested for being null), the UUID of the \<open>jti\<close>
  claim, the id Prisma generates for a created row, the decimal string of
  \<open>crypto.randomInt(100000, 1000000)\<close> and the bcrypt salt.
\<close>

record rnd =
  now :: time
  randomUUID :: string
  newRowId :: string
  randomOtp :: string
  salt :: string

section \<open>Responses\<close>

datatype response = Response (status: nat) (body: json)

definition error_body :: "string \<Rightarrow> string \<Rightarrow> json" where
  "error_body code msg =
     JObj [(''success'', JBool False),
           (''error'', JObj [(''code'', JStr code), (''message'', JStr msg)])]"

definition success_body :: "(string \<times> json) list \<Rightarrow> json" where
  "success_body data = JObj [(''success'', JBool True), (''data'', JObj data)]"

section \<open>The protected-route authenticator (middlewares/auth.js)\<close>

text \<open>
  \<open>auth\<close> takes the result of \<open>extractAccessToken(req)\<close>: \<open>None\<close> for \<open>null\<close>,
  otherwise the candidate token. It either sends a response or calls \<open>next()\<close> with the
  verified payload stored in \<open>req.user\<close>.
\<close>

datatype auth_outcome = Rejected response | Authenticated json

definition auth_failure :: "jwt_error \<Rightarrow> auth_outcome" where
  \<comment> \<open>the end of the \<open>catch\<close> block, after the probe with the refresh secret\<close>
  "auth_failure error =
     (if error = TokenExpiredError
      then Rejected (Response 401 (error_body ''TOKEN_EXPIRED'' ''Access token expired''))
      else Rejected (Response 401 (error_body ''UNAUTHORIZED'' ''Invalid or expired access token'')))"

definition auth :: "lib \<Rightarrow> env \<Rightarrow> time \<Rightarrow> string option \<Rightarrow> auth_outcome" where
  "auth L E t candidate =
     (case candidate of
        None \<Rightarrow> Rejected (Response 401 (error_body ''UNAUTHORIZED'' ''Missing access token''))
      | Some token \<Rightarrow>
          if token = [] then
            Rejected (Response 401 (error_body ''UNAUTHORIZED'' ''Missing access token''))
          else
            (case jwt_verify L token (JWT_ACCESS_SECRET E) t of
               Inr payload \<Rightarrow>
                 if \<not> truthy payload \<or> \<not> is_object payload then
                   Rejected (Response 401 (error_body ''UNAUTHORIZED'' ''Invalid access token payload''))
                 else if \<not> js_strict_eq (field ''tokenType'' payload) (JStr ''access'')
                         \<or> \<not> is_string (field ''sub'' payload) then
                   Rejected (Response 401 (error_body ''UNAUTHORIZED'' ''Invalid access token''))
                 else Authenticated payload
             | Inl error \<Rightarrow>
                 (case jwt_verify L token (JWT_REFRESH_SECRET E) t of
                    Inr refreshPayload \<Rightarrow>
                      if truthy refreshPayload \<and> is_object refreshPayload
                         \<and> js_strict_eq (field ''tokenType'' refreshPayload) (JStr ''refresh'')
                      then Rejected (Response 401 (error_body ''UNAUTHORIZED''
                        ''Refresh token cannot be used here. Send accessToken in Authorization header.''))
                      else auth_failure error
                  | Inl e \<Rightarrow> auth_failure error)))"


section \<open>The persistent store\<close>

text \<open>
  The three tables the authentication code touches, with the columns of the migration.
  A table is the list of its rows in insertion order.
\<close>

record user =
  user_id :: string
  fullName :: string
  user_email :: string
  role :: string
  schoolId :: "string option"
  branchId :: "string option"
  isActive :: bool
  passwordHash :: string
  lastLoginAt :: "time option"

record refreshToken =
  rt_id :: string
  rt_userId :: string
  tokenHash :: string
  rt_expiresAt :: time
  revokedAt :: "time option"
  rt_createdAt :: time

record passwordResetOtp =
  otp_id :: string
  otp_email :: string
  otpHash :: string
  otp_expiresAt :: time
  usedAt :: "time option"
  otp_createdAt :: time

record db =
  users :: "user list"
  refreshTokens :: "refreshToken list"
  passwordResetOtps :: "passwordResetOtp list"

text \<open>
  The errors a Prisma call throws here: a violated unique index or primary key, an
  update of a row that does not exist, a violated foreign key, an invalid argument.
\<close>

datatype prisma_error = UniqueConstraint | RecordNotFound | ForeignKeyConstraint | ValidationFailed

definition user_findUnique_email :: "db \<Rightarrow> string \<Rightarrow> user option" where
  "user_findUnique_email D e = find (\<lambda>u. user_email u = e) (users D)"

definition user_findUnique_id :: "db \<Rightarrow> string \<Rightarrow> user option" where
  "user_findUnique_id D i = find (\<lambda>u. user_id u = i) (users D)"

definition user_update :: "string \<Rightarrow> (user \<Rightarrow> user) \<Rightarrow> db \<Rightarrow> prisma_error + db" where
  "user_update i f D =
     (if user_findUnique_id D i = None then Inl RecordNotFound
      else Inr (D\<lparr>users := map (\<lambda>u. if user_id u = i then f u else u) (users D)\<rparr>))"

definition refreshToken_findUnique :: "db \<Rightarrow> string \<Rightarrow> refreshToken option" where
  \<comment> \<open>\<open>findUnique({ where: { tokenHash } })\<close>\<close>
  "refreshToken_findUnique D h = find (\<lambda>r. tokenHash r = h) (refreshTokens D)"

text \<open>
  \<open>refreshToken.create\<close>: the row id and the creation time are filled in by Prisma and
  the database. The primary key, the unique index on \<open>tokenHash\<close> and the foreign key
  to \<open>User\<close> are checked. The expiry is \<open>None\<close> for an invalid \<open>Date\<close>.
\<close>

definition refreshToken_create ::
    "string \<Rightarrow> time \<Rightarrow> string \<Rightarrow> string \<Rightarrow> time option \<Rightarrow> db \<Rightarrow> prisma_error + db" where
  "refreshToken_create newId created uid h expires D =
     (case expires of
        None \<Rightarrow> Inl ValidationFailed
      | Some ex \<Rightarrow>
          if find (\<lambda>r. rt_id r = newId) (refreshTokens D) \<noteq> None
             \<or> refreshToken_findUnique D h \<noteq> None then Inl UniqueConstraint
          else if user_findUnique_id D uid = None then Inl ForeignKeyConstraint
          else Inr (D\<lparr>refreshTokens := refreshTokens D @
                 [\<lparr>rt_id = newId, rt_userId = uid, tokenHash = h, rt_expiresAt = ex,
                   revokedAt = None, rt_createdAt = created\<rparr>]\<rparr>))"

definition refreshToken_update :: "string \<Rightarrow> time \<Rightarrow> db \<Rightarrow> prisma_error + db" where
  \<comment> \<open>\<open>update({ where: { id }, data: { revokedAt } })\<close>\<close>
  "refreshToken_update i t D =
     (if find (\<lambda>r. rt_id r = i) (refreshTokens D) = None then Inl RecordNotFound
      else Inr (D\<lparr>refreshTokens :=
             map (\<lambda>r. if rt_id r = i then r\<lparr>revokedAt := Some t\<rparr> else r) (refreshTokens D)\<rparr>))"

definition refreshToken_updateMany :: "(refreshToken \<Rightarrow> bool) \<Rightarrow> time \<Rightarrow> db \<Rightarrow> prisma_error + db" where
  \<comment> \<open>\<open>updateMany({ where: { ..., revokedAt: null }, data: { revokedAt } })\<close>\<close>
  "refreshToken_updateMany wh t D =
     Inr (D\<lparr>refreshTokens :=
            map (\<lambda>r. if wh r \<and> revokedAt r = None then r\<lparr>revokedAt := Some t\<rparr> else r)
              (refreshTokens D)\<rparr>)"

definition passwordResetOtp_updateMany :: "string \<Rightarrow> time \<Rightarrow> db \<Rightarrow> prisma_error + db" where
  \<comment> \<open>\<open>updateMany({ where: { email, usedAt: null }, data: { usedAt } })\<close>\<close>
  "passwordResetOtp_updateMany e t D =
     Inr (D\<lparr>passwordResetOtps :=
            map (\<lambda>r. if otp_email r = e \<and> usedAt r = None then r\<lparr>usedAt := Some t\<rparr> else r)
              (passwordResetOtps D)\<rparr>)"

definition passwordResetOtp_create ::
    "string \<Rightarrow> time \<Rightarrow> string \<Rightarrow> string \<Rightarrow> time \<Rightarrow> db \<Rightarrow> prisma_error + db" where
  "passwordResetOtp_create newId created e h expires D =
     (if find (\<lambda>r. otp_id r = newId) (passwordResetOtps D) \<noteq> None then Inl UniqueConstraint
      else Inr (D\<lparr>passwordResetOtps := passwordResetOtps D @
             [\<lparr>otp_id = newId, otp_email = e, otpHash = h, otp_expiresAt = expires,
               usedAt = None, otp_createdAt = created\<rparr>]\<rparr>))"

text \<open>
  \<open>findFirst({ where: { email, usedAt: null }, orderBy: { createdAt: "desc" } })\<close>: the
  unused row of the email with the greatest creation time. Among rows of equal creation
  time the database may return any; the model returns the earliest inserted.
\<close>

fun newest :: "passwordResetOtp list \<Rightarrow> passwordResetOtp option" where
  "newest [] = None"
| "newest (x # xs) =
     (case newest xs of
        None \<Rightarrow> Some x
      | Some y \<Rightarrow> if otp_createdAt x < otp_createdAt y then Some y else Some x)"

definition passwordResetOtp_findFirst :: "db \<Rightarrow> string \<Rightarrow> passwordResetOtp option" where
  "passwordResetOtp_findFirst D e =
     newest (filter (\<lambda>r. otp_email r = e \<and> usedAt r = None) (passwordResetOtps D))"

definition passwordResetOtp_update :: "string \<Rightarrow> time \<Rightarrow> db \<Rightarrow> prisma_error + db" where
  \<comment> \<open>\<open>update({ where: { id }, data: { usedAt } })\<close>\<close>
  "passwordResetOtp_update i t D =
     (if find (\<lambda>r. otp_id r = i) (passwordResetOtps D) = None then Inl RecordNotFound
      else Inr (D\<lparr>passwordResetOtps :=
             map (\<lambda>r. if otp_id r = i then r\<lparr>usedAt := Some t\<rparr> else r) (passwordResetOtps D)\<rparr>))"

text \<open>
  \<open>prisma.$transaction([...])\<close>: the operations run in order; when one throws, the
  whole batch is rolled back and the error is thrown.
\<close>

fun transaction :: "(db \<Rightarrow> prisma_error + db) list \<Rightarrow> db \<Rightarrow> prisma_error + db" where
  "transaction [] D = Inr D"
| "transaction (operation # rest) D =
     (case operation D of Inl e \<Rightarrow> Inl e | Inr D' \<Rightarrow> transaction rest D')"


section \<open>Request schemas (modules/auth/auth.handlers.js)\<close>

text \<open>
  Each \<open>schema.parse(req.body)\<close> returns the parsed fields, or \<open>None\<close> where zod
  throws. String lengths count characters of the model's strings.
\<close>

definition is_upper :: "char \<Rightarrow> bool" where
  "is_upper c = (c \<in> set ''ABCDEFGHIJKLMNOPQRSTUVWXYZ'')"

definition is_lower :: "char \<Rightarrow> bool" where
  "is_lower c = (c \<in> set ''abcdefghijklmnopqrstuvwxyz'')"

definition is_digit :: "char \<Rightarrow> bool" where
  "is_digit c = (c \<in> set ''0123456789'')"

definition is_space :: "char \<Rightarrow> bool" where
  \<comment> \<open>the ASCII white space that \<open>trim\<close> removes: space, tab, LF, VT, FF, CR\<close>
  "is_space c = (c \<in> set [CHR 0x20, CHR 0x09, CHR 0x0A, CHR 0x0B, CHR 0x0C, CHR 0x0D])"

definition trim :: "string \<Rightarrow> string" where
  "trim s = rev (dropWhile is_space (rev (dropWhile is_space s)))"

definition newPassword_ok :: "string \<Rightarrow> bool" where
  "newPassword_ok s =
     (8 \<le> length s \<and> list_ex is_upper s \<and> list_ex is_lower s \<and> list_ex is_digit s
      \<and> list_ex (\<lambda>c. \<not> is_upper c \<and> \<not> is_lower c \<and> \<not> is_digit c) s)"

definition loginSchema :: "lib \<Rightarrow> json \<Rightarrow> (string \<times> string) option" where
  "loginSchema L b =
     (case (field ''email'' b, field ''password'' b) of
        (JStr e, JStr p) \<Rightarrow> if zod_email L e \<and> 6 \<le> length p then Some (e, p) else None
      | _ \<Rightarrow> None)"

definition refreshSchema :: "json \<Rightarrow> string option" where
  "refreshSchema b =
     (case field ''refreshToken'' b of
        JStr s \<Rightarrow> if 1 \<le> length s then Some s else None
      | _ \<Rightarrow> None)"

definition logoutSchema :: "json \<Rightarrow> string option option" where
  \<comment> \<open>\<open>Some None\<close> when the optional \<open>refreshToken\<close> is absent\<close>
  "logoutSchema b =
     (case b of
        JObj kvs \<Rightarrow>
          (case field ''refreshToken'' b of
             JUndefined \<Rightarrow> Some None
           | JStr s \<Rightarrow> if 1 \<le> length s then Some (Some s) else None
           | _ \<Rightarrow> None)
      | _ \<Rightarrow> None)"

definition forgotPasswordSchema :: "lib \<Rightarrow> json \<Rightarrow> string option" where
  "forgotPasswordSchema L b =
     (case field ''email'' b of
        JStr e \<Rightarrow> if zod_email L e then Some e else None
      | _ \<Rightarrow> None)"

definition verifyOtpSchema :: "lib \<Rightarrow> json \<Rightarrow> (string \<times> string) option" where
  "verifyOtpSchema L b =
     (case (field ''email'' b, field ''otp'' b) of
        (JStr e, JStr otp) \<Rightarrow>
          if zod_email L e \<and> length (trim otp) = 6 \<and> list_all is_digit (trim otp)
          then Some (e, trim otp) else None
      | _ \<Rightarrow> None)"

definition resetPasswordSchema :: "json \<Rightarrow> (string \<times> string) option" where
  "resetPasswordSchema b =
     (case (field ''resetToken'' b, field ''newPassword'' b) of
        (JStr tok, JStr p) \<Rightarrow> if 1 \<le> length tok \<and> newPassword_ok p then Some (tok, p) else None
      | _ \<Rightarrow> None)"

definition changePasswordSchema :: "json \<Rightarrow> (string \<times> string) option" where
  "changePasswordSchema b =
     (case (field ''currentPassword'' b, field ''newPassword'' b) of
        (JStr cur, JStr p) \<Rightarrow> if 6 \<le> length cur \<and> newPassword_ok p then Some (cur, p) else None
      | _ \<Rightarrow> None)"

section \<open>Token helpers (modules/auth/auth.handlers.js)\<close>

definition passwordResetSecret :: "env \<Rightarrow> string" where
  "passwordResetSecret E =
     (case PASSWORD_RESET_SECRET E of
        Some s \<Rightarrow> if s \<noteq> [] then s else JWT_REFRESH_SECRET E
      | None \<Rightarrow> JWT_REFRESH_SECRET E)"

definition nullable :: "string option \<Rightarrow> json" where
  "nullable v = (case v of None \<Rightarrow> JNull | Some s \<Rightarrow> JStr s)"

definition toSafeUser :: "user \<Rightarrow> json" where
  "toSafeUser u =
     JObj [(''id'', JStr (user_id u)), (''fullName'', JStr (fullName u)),
           (''email'', JStr (user_email u)), (''role'', JStr (role u)),
           (''schoolId'', nullable (schoolId u)), (''branchId'', nullable (branchId u)),
           (''isActive'', JBool (isActive u))]"

definition hashToken :: "lib \<Rightarrow> string \<Rightarrow> string" where
  "hashToken L token = sha256_hex L token"

text \<open>
  \<open>tokenExpiryFromJwt\<close> with its default of seven days. \<open>None\<close> is an invalid
  \<open>Date\<close>: \<open>exp * 1000\<close> of an \<open>exp\<close> that is truthy but no number (a numeric string,
  which JavaScript would convert, is not told apart here; \<open>jwt.sign\<close> writes a number).
\<close>

definition tokenExpiryFromJwt :: "lib \<Rightarrow> rnd \<Rightarrow> string \<Rightarrow> time option" where
  "tokenExpiryFromJwt L R token =
     (let decoded = jwt_decode L token in
      if truthy decoded \<and> is_object decoded \<and> truthy (field ''exp'' decoded) then
        (case field ''exp'' decoded of
           JNum n \<Rightarrow> Some (n * 1000)
         | JBool b \<Rightarrow> Some 1000
         | _ \<Rightarrow> None)
      else Some (now R + 7 * 24 * 60 * 60 * 1000))"

definition buildJwtPayload :: "user \<Rightarrow> (string \<times> json) list" where
  "buildJwtPayload u =
     [(''sub'', JStr (user_id u)), (''email'', JStr (user_email u)), (''role'', JStr (role u)),
      (''schoolId'', nullable (schoolId u)), (''branchId'', nullable (branchId u))]"

text \<open>\<open>{ ...payload, k: v }\<close> is \<open>AList.update k v payload\<close>.\<close>

definition issueAccessToken :: "lib \<Rightarrow> env \<Rightarrow> rnd \<Rightarrow> (string \<times> json) list \<Rightarrow> string" where
  "issueAccessToken L E R payload =
     jwt_sign L (JObj (AList.update ''tokenType'' (JStr ''access'') payload))
       (JWT_ACCESS_SECRET E) (ACCESS_TOKEN_EXPIRES_IN E) (now R)"

definition issueRefreshToken :: "lib \<Rightarrow> env \<Rightarrow> rnd \<Rightarrow> (string \<times> json) list \<Rightarrow> string" where
  "issueRefreshToken L E R payload =
     jwt_sign L (JObj (AList.update ''jti'' (JStr (randomUUID R))
                        (AList.update ''tokenType'' (JStr ''refresh'') payload)))
       (JWT_REFRESH_SECRET E) (REFRESH_TOKEN_EXPIRES_IN E) (now R)"

definition issuePasswordResetToken :: "lib \<Rightarrow> env \<Rightarrow> rnd \<Rightarrow> (string \<times> json) list \<Rightarrow> string" where
  "issuePasswordResetToken L E R payload =
     jwt_sign L (JObj (AList.update ''jti'' (JStr (randomUUID R))
                        (AList.update ''tokenType'' (JStr ''password_reset'') payload)))
       (passwordResetSecret E) (PASSWORD_RESET_TOKEN_EXPIRES_IN E) (now R)"

definition unauthorized :: "string \<Rightarrow> response" where
  "unauthorized msg = Response 401 (error_body ''UNAUTHORIZED'' msg)"

definition invalidOtp :: response where
  "invalidOtp = Response 400 (error_body ''INVALID_OTP'' ''Invalid or expired OTP'')"

definition invalidResetToken :: response where
  "invalidResetToken =
     Response 401 (error_body ''INVALID_RESET_TOKEN'' ''Invalid or expired reset token'')"


section \<open>Session flows (modules/auth/auth.handlers.js)\<close>

text \<open>
  A handler maps the store and the request to what it does with the request (a response
  sent, or \<open>next(error)\<close> for the error caught by its \<open>try\<close>) and the store
  afterwards. Log lines are not modelled.
\<close>

datatype failure = ZodError | PrismaFailure prisma_error | MailFailure | MailNotConfigured

datatype outcome = Sent response | Next failure

definition login :: "lib \<Rightarrow> env \<Rightarrow> rnd \<Rightarrow> db \<Rightarrow> json \<Rightarrow> outcome \<times> db" where
  "login L E R D b =
     (case loginSchema L b of
        None \<Rightarrow> (Next ZodError, D)
      | Some (email, password) \<Rightarrow>
          (case user_findUnique_email D (toLowerCase L email) of
             None \<Rightarrow> (Sent (unauthorized ''Invalid email or password''), D)
           | Some u \<Rightarrow>
               if \<not> isActive u then (Sent (unauthorized ''Invalid email or password''), D)
               else if \<not> bcrypt_compare L password (passwordHash u) then
                 (Sent (unauthorized ''Invalid email or password''), D)
               else
                 (let payload = buildJwtPayload u;
                      accessToken = issueAccessToken L E R payload;
                      refreshToken = issueRefreshToken L E R payload
                  in case transaction
                       [user_update (user_id u) (\<lambda>x. x\<lparr>lastLoginAt := Some (now R)\<rparr>),
                        refreshToken_create (newRowId R) (now R) (user_id u)
                          (hashToken L refreshToken) (tokenExpiryFromJwt L R refreshToken)] D of
                       Inl e \<Rightarrow> (Next (PrismaFailure e), D)
                     | Inr D' \<Rightarrow>
                         (Sent (Response 200 (success_body
                            [(''accessToken'', JStr accessToken),
                             (''refreshToken'', JStr refreshToken),
                             (''user'', toSafeUser u)])), D'))))"

definition refresh :: "lib \<Rightarrow> env \<Rightarrow> rnd \<Rightarrow> db \<Rightarrow> json \<Rightarrow> outcome \<times> db" where
  "refresh L E R D b =
     (case refreshSchema b of
        None \<Rightarrow> (Next ZodError, D)
      | Some refreshToken \<Rightarrow>
          (case jwt_verify L refreshToken (JWT_REFRESH_SECRET E) (now R) of
             Inl error \<Rightarrow> (Sent (unauthorized ''Invalid or expired refresh token''), D)
           | Inr decoded \<Rightarrow>
               if \<not> truthy decoded \<or> \<not> is_object decoded
                  \<or> \<not> js_strict_eq (field ''tokenType'' decoded) (JStr ''refresh'')
                  \<or> \<not> is_string (field ''sub'' decoded) then
                 (Sent (unauthorized ''Invalid refresh token''), D)
               else
                 (case refreshToken_findUnique D (hashToken L refreshToken) of
                    None \<Rightarrow> (Sent (unauthorized ''Refresh token is revoked or invalid''), D)
                  | Some storedToken \<Rightarrow>
                      if revokedAt storedToken \<noteq> None then
                        (Sent (unauthorized ''Refresh token is revoked or invalid''), D)
                      else if rt_expiresAt storedToken < now R then
                        (Sent (unauthorized ''Refresh token is expired''), D)
                      else
                        (case user_findUnique_id D (rt_userId storedToken) of
                           None \<Rightarrow> (Sent (unauthorized ''User is inactive''), D)
                         | Some u \<Rightarrow>
                             if \<not> isActive u then (Sent (unauthorized ''User is inactive''), D)
                             else
                               (let payload = buildJwtPayload u;
                                    nextAccessToken = issueAccessToken L E R payload;
                                    nextRefreshToken = issueRefreshToken L E R payload
                                in case transaction
                                     [refreshToken_update (rt_id storedToken) (now R),
                                      refreshToken_create (newRowId R) (now R) (user_id u)
                                        (hashToken L nextRefreshToken)
                                        (tokenExpiryFromJwt L R nextRefreshToken)] D of
                                     Inl e \<Rightarrow> (Next (PrismaFailure e), D)
                                   | Inr D' \<Rightarrow>
                                       (Sent (Response 200 (success_body
                                          [(''accessToken'', JStr nextAccessToken),
                                           (''refreshToken'', JStr nextRefreshToken),
                                           (''user'', toSafeUser u)])), D'))))))"

definition logout :: "lib \<Rightarrow> env \<Rightarrow> rnd \<Rightarrow> db \<Rightarrow> json \<Rightarrow> outcome \<times> db" where
  "logout L E R D b =
     (case logoutSchema (if truthy b then b else JObj []) of
        None \<Rightarrow> (Next ZodError, D)
      | Some None \<Rightarrow> (Sent (Response 200 (success_body [(''message'', JStr ''Logged out'')])), D)
      | Some (Some refreshToken) \<Rightarrow>
          (case refreshToken_updateMany (\<lambda>r. tokenHash r = hashToken L refreshToken) (now R) D of
             Inl e \<Rightarrow> (Next (PrismaFailure e), D)
           | Inr D' \<Rightarrow>
               (Sent (Response 200 (success_body [(''message'', JStr ''Logged out'')])), D')))"

text \<open>
  In \<open>forgotPassword\<close> the mail is sent after the transaction has committed, so a
  failure there leaves the new OTP stored. \<open>res.json\<close> omits a property whose value is
  \<open>undefined\<close>, which is what \<open>debugOtp\<close> is in production.
\<close>

definition forgotPassword :: "lib \<Rightarrow> env \<Rightarrow> rnd \<Rightarrow> db \<Rightarrow> json \<Rightarrow> outcome \<times> db" where
  "forgotPassword L E R D b =
     (case forgotPasswordSchema L b of
        None \<Rightarrow> (Next ZodError, D)
      | Some email \<Rightarrow>
          (let normalizedEmail = toLowerCase L email;
               generic = Sent (Response 200 (success_body
                 [(''message'',
                   JStr ''If your account exists, a verification code has been generated'')]))
           in case user_findUnique_email D normalizedEmail of
                None \<Rightarrow> (generic, D)
              | Some u \<Rightarrow>
                  if \<not> isActive u then (generic, D)
                  else
                    (let otp = randomOtp R;
                         otpHash = bcrypt_hash L otp (salt R);
                         expiresAt = now R + PASSWORD_RESET_OTP_EXPIRES_MINUTES E * 60 * 1000
                     in case transaction
                          [passwordResetOtp_updateMany normalizedEmail (now R),
                           passwordResetOtp_create (newRowId R) (now R) normalizedEmail
                             otpHash expiresAt] D of
                          Inl e \<Rightarrow> (Next (PrismaFailure e), D)
                        | Inr D' \<Rightarrow>
                            if isMailerConfigured L
                               \<and> \<not> sendPasswordResetOtpEmail L normalizedEmail otp
                                     (PASSWORD_RESET_OTP_EXPIRES_MINUTES E) then
                              (Next MailFailure, D')
                            else if \<not> isMailerConfigured L \<and> NODE_ENV E = ''production'' then
                              (Next MailNotConfigured, D')
                            else
                              (Sent (Response 200 (success_body
                                 ([(''message'', JStr
                                     ''If your account exists, a verification code has been generated'')]
                                  @ (if NODE_ENV E = ''production'' then []
                                     else [(''debugOtp'', JStr otp)])
                                  @ [(''otpExpiresAt'', JStr (toISOString L expiresAt))]))), D'))))"


definition verifyOtp :: "lib \<Rightarrow> env \<Rightarrow> rnd \<Rightarrow> db \<Rightarrow> json \<Rightarrow> outcome \<times> db" where
  "verifyOtp L E R D b =
     (case verifyOtpSchema L b of
        None \<Rightarrow> (Next ZodError, D)
      | Some (email, otp) \<Rightarrow>
          (let normalizedEmail = toLowerCase L email
           in case passwordResetOtp_findFirst D normalizedEmail of
                None \<Rightarrow> (Sent invalidOtp, D)
              | Some record \<Rightarrow>
                  if otp_expiresAt record \<le> now R then (Sent invalidOtp, D)
                  else if \<not> bcrypt_compare L otp (otpHash record) then (Sent invalidOtp, D)
                  else
                    (case user_findUnique_email D normalizedEmail of
                       None \<Rightarrow> (Sent invalidOtp, D)
                     | Some u \<Rightarrow>
                         if \<not> isActive u then (Sent invalidOtp, D)
                         else
                           (case passwordResetOtp_update (otp_id record) (now R) D of
                              Inl e \<Rightarrow> (Next (PrismaFailure e), D)
                            | Inr D' \<Rightarrow>
                                (Sent (Response 200 (success_body
                                   [(''resetToken'', JStr (issuePasswordResetToken L E R
                                       [(''sub'', JStr (user_id u)),
                                        (''email'', JStr (user_email u))])),
                                    (''expiresIn'',
                                       JStr (PASSWORD_RESET_TOKEN_EXPIRES_IN E))])), D')))))"

definition resetPassword :: "lib \<Rightarrow> env \<Rightarrow> rnd \<Rightarrow> db \<Rightarrow> json \<Rightarrow> outcome \<times> db" where
  "resetPassword L E R D b =
     (case resetPasswordSchema b of
        None \<Rightarrow> (Next ZodError, D)
      | Some (resetToken, newPassword) \<Rightarrow>
          (case jwt_verify L resetToken (passwordResetSecret E) (now R) of
             Inl error \<Rightarrow> (Sent invalidResetToken, D)
           | Inr decoded \<Rightarrow>
               if \<not> truthy decoded \<or> \<not> is_object decoded
                  \<or> \<not> js_strict_eq (field ''tokenType'' decoded) (JStr ''password_reset'') then
                 (Sent invalidResetToken, D)
               else
                 (case (field ''sub'' decoded, field ''email'' decoded) of
                    (JStr sub, JStr email) \<Rightarrow>
                      (case user_findUnique_id D sub of
                         None \<Rightarrow> (Sent invalidResetToken, D)
                       | Some u \<Rightarrow>
                           if \<not> isActive u \<or> user_email u \<noteq> email then
                             (Sent invalidResetToken, D)
                           else
                             (case transaction
                                [user_update (user_id u)
                                   (\<lambda>x. x\<lparr>passwordHash := bcrypt_hash L newPassword (salt R)\<rparr>),
                                 refreshToken_updateMany (\<lambda>r. rt_userId r = user_id u) (now R),
                                 passwordResetOtp_updateMany (user_email u) (now R)] D of
                                Inl e \<Rightarrow> (Next (PrismaFailure e), D)
                              | Inr D' \<Rightarrow>
                                  (Sent (Response 200 (success_body
                                     [(''message'', JStr
                                        ''Password reset successful. Please login again.'')])),
                                   D')))
                  | _ \<Rightarrow> (Sent invalidResetToken, D))))"

text \<open>
  \<open>changePassword\<close> runs behind the authenticator; its first argument after the store
  is \<open>req.user\<close>. A \<open>sub\<close> that is truthy but no string makes Prisma's lookup throw.
\<close>

definition changePassword :: "lib \<Rightarrow> env \<Rightarrow> rnd \<Rightarrow> db \<Rightarrow> json \<Rightarrow> json \<Rightarrow> outcome \<times> db" where
  "changePassword L E R D req_user b =
     (let userId = field ''sub'' req_user in
      if \<not> truthy userId then (Sent (unauthorized ''Invalid access token payload''), D)
      else
        (case changePasswordSchema b of
           None \<Rightarrow> (Next ZodError, D)
         | Some (currentPassword, newPassword) \<Rightarrow>
             (case userId of
                JStr uid \<Rightarrow>
                  (case user_findUnique_id D uid of
                     None \<Rightarrow> (Sent (unauthorized ''User is inactive''), D)
                   | Some u \<Rightarrow>
                       if \<not> isActive u then (Sent (unauthorized ''User is inactive''), D)
                       else if \<not> bcrypt_compare L currentPassword (passwordHash u) then
                         (Sent (unauthorized ''Current password is incorrect''), D)
                       else if bcrypt_compare L newPassword (passwordHash u) then
                         (Sent (Response 400 (error_body ''BAD_REQUEST''
                            ''New password must be different from current password'')), D)
                       else
                         (case transaction
                            [user_update (user_id u)
                               (\<lambda>x. x\<lparr>passwordHash := bcrypt_hash L newPassword (salt R)\<rparr>),
                             refreshToken_updateMany (\<lambda>r. rt_userId r = user_id u) (now R)] D of
                            Inl e \<Rightarrow> (Next (PrismaFailure e), D)
                          | Inr D' \<Rightarrow>
                              (Sent (Response 200 (success_body
                                 [(''message'', JStr
                                    ''Password changed successfully. Please login again.'')])),
                               D')))
              | _ \<Rightarrow> (Next (PrismaFailure ValidationFailed), D))))"

section \<open>Sequences of requests\<close>

text \<open>
  The writes to the three tables all come from the handlers above (\<open>me\<close> only reads),
  so the stores the service can reach are those produced by running requests one after
  another.
\<close>

datatype call =
    Login json
  | Refresh json
  | Logout json
  | ForgotPassword json
  | VerifyOtp json
  | ResetPassword json
  | ChangePassword json json

fun handle :: "lib \<Rightarrow> env \<Rightarrow> db \<Rightarrow> rnd \<times> call \<Rightarrow> outcome \<times> db" where
  "handle L E D (R, Login b) = login L E R D b"
| "handle L E D (R, Refresh b) = refresh L E R D b"
| "handle L E D (R, Logout b) = logout L E R D b"
| "handle L E D (R, ForgotPassword b) = forgotPassword L E R D b"
| "handle L E D (R, VerifyOtp b) = verifyOtp L E R D b"
| "handle L E D (R, ResetPassword b) = resetPassword L E R D b"
| "handle L E D (R, ChangePassword req_user b) = changePassword L E R D req_user b"

fun run :: "lib \<Rightarrow> env \<Rightarrow> (rnd \<times> call) list \<Rightarrow> db \<Rightarrow> db" where
  "run L E [] D = D"
| "run L E (c # cs) D = run L E cs (snd (handle L E D c))"


section \<open>Notions used in the properties\<close>

definition succeeded :: "outcome \<Rightarrow> bool" where
  \<comment> \<open>the handler answered 200\<close>
  "succeeded out = (case out of Sent r \<Rightarrow> status r = 200 | Next e \<Rightarrow> False)"

definition keys :: "json \<Rightarrow> string list" where
  \<comment> \<open>the property names of an object, in order\<close>
  "keys v = (case v of JObj kvs \<Rightarrow> map fst kvs | _ \<Rightarrow> [])"

text \<open>The ledger lookup of hash \<open>h\<close> finds an entry, and that entry is revoked.\<close>

definition is_revoked_hash :: "string \<Rightarrow> db \<Rightarrow> bool" where
  "is_revoked_hash h D =
     (case refreshToken_findUnique D h of None \<Rightarrow> False | Some r \<Rightarrow> revokedAt r \<noteq> None)"

text \<open>
  How the ledger changes over time: rows are rewritten in place, keeping their hash and
  never losing a revocation timestamp, and new rows are added at the end.
\<close>

definition ledger_evolves :: "db \<Rightarrow> db \<Rightarrow> bool" where
  "ledger_evolves D D' =
     (\<exists>f extra. refreshTokens D' = map f (refreshTokens D) @ extra
        \<and> (\<forall>r. tokenHash (f r) = tokenHash r \<and> (revokedAt r \<noteq> None \<longrightarrow> revokedAt (f r) \<noteq> None)))"

definition evolving :: "(db \<Rightarrow> prisma_error + db) \<Rightarrow> bool" where
  "evolving operation = (\<forall>A B. operation A = Inr B \<longrightarrow> ledger_evolves A B)"

text \<open>
  The unused OTP rows have pairwise different emails: each email has at most one unused
  OTP.
\<close>

definition one_unused_otp :: "db \<Rightarrow> bool" where
  "one_unused_otp D =
     distinct (map otp_email (filter (\<lambda>r. usedAt r = None) (passwordResetOtps D)))"

text \<open>A row of id \<open>i\<close> exists, and every row of that id is marked used.\<close>

definition otp_consumed :: "string \<Rightarrow> db \<Rightarrow> bool" where
  "otp_consumed i D =
     (find (\<lambda>r. otp_id r = i) (passwordResetOtps D) \<noteq> None
      \<and> list_all (\<lambda>r. otp_id r = i \<longrightarrow> usedAt r \<noteq> None) (passwordResetOtps D))"

text \<open>An operation keeps a property of the store whenever it succeeds.\<close>

definition preserving :: "(db \<Rightarrow> bool) \<Rightarrow> (db \<Rightarrow> prisma_error + db) \<Rightarrow> bool" where
  "preserving P operation = (\<forall>A B. operation A = Inr B \<longrightarrow> P A \<longrightarrow> P B)"

section \<open>A concrete configuration\<close>

text \<open>
  A small instance of the parameters, on which the handlers can be evaluated: tokens are
  \<open>R:\<close>, \<open>P:\<close> or \<open>A\<close> followed by their \<open>jti\<close>, hashing is the identity, and one
  active account holds one live refresh token.
\<close>

definition demo_lib :: lib where
  "demo_lib =
     \<lparr>jwt_verify = (\<lambda>token secret t.
        if secret = ''refresh-secret-0123456789'' \<and> take 2 token = ''R:'' then
          Inr (JObj [(''sub'', JStr ''u1''), (''tokenType'', JStr ''refresh'')])
        else if secret = ''refresh-secret-0123456789'' \<and> take 2 token = ''P:'' then
          Inr (JObj [(''sub'', JStr ''u1''), (''email'', JStr ''admin@school.edu''),
                     (''tokenType'', JStr ''password_reset'')])
        else if secret = ''access-secret-0123456789'' \<and> token = ''A'' then
          Inr (JObj [(''sub'', JStr ''u1''), (''tokenType'', JStr ''access'')])
        else if token = ''stale'' then Inl TokenExpiredError
        else Inl JsonWebTokenError),
      jwt_sign = (\<lambda>payload secret expiresIn t.
        case field ''jti'' payload of
          JStr j \<Rightarrow> (if field ''tokenType'' payload = JStr ''refresh'' then ''R:'' @ j else ''P:'' @ j)
        | _ \<Rightarrow> ''A''),
      jwt_decode = (\<lambda>token. JNull),
      sha256_hex = (\<lambda>s. s),
      bcrypt_hash = (\<lambda>password salt. password),
      bcrypt_compare = (\<lambda>password hash. password = hash),
      zod_email = (\<lambda>s. CHR ''@'' \<in> set s),
      toLowerCase = (\<lambda>s. s),
      toISOString = (\<lambda>t. ''1970-01-01T00:10:00.005Z''),
      isMailerConfigured = True,
      sendPasswordResetOtpEmail = (\<lambda>to otp minutes. True)\<rparr>"

definition demo_env :: env where
  "demo_env =
     \<lparr>NODE_ENV = ''production'',
      JWT_ACCESS_SECRET = ''access-secret-0123456789'',
      JWT_REFRESH_SECRET = ''refresh-secret-0123456789'',
      PASSWORD_RESET_SECRET = None,
      ACCESS_TOKEN_EXPIRES_IN = ''15m'',
      REFRESH_TOKEN_EXPIRES_IN = ''7d'',
      PASSWORD_RESET_TOKEN_EXPIRES_IN = ''10m'',
      PASSWORD_RESET_OTP_EXPIRES_MINUTES = 10\<rparr>"

definition demo_user :: user where
  "demo_user =
     \<lparr>user_id = ''u1'', fullName = ''Admin'', user_email = ''admin@school.edu'',
      role = ''SCHOOLADMIN'', schoolId = Some ''s1'', branchId = None, isActive = True,
      passwordHash = ''Admin123!'', lastLoginAt = None\<rparr>"

definition demo_db :: db where
  "demo_db =
     \<lparr>users = [demo_user],
      refreshTokens =
        [\<lparr>rt_id = ''t1'', rt_userId = ''u1'', tokenHash = ''R:j1'', rt_expiresAt = 1000,
          revokedAt = None, rt_createdAt = 0\<rparr>],
      passwordResetOtps = []\<rparr>"

definition demo_rnd :: rnd where
  "demo_rnd = \<lparr>now = 5, randomUUID = ''j2'', newRowId = ''t2'', randomOtp = ''123456'', salt = ''x''\<rparr>"


definition demo_refresh_body :: json where
  "demo_refresh_body = JObj [(''refreshToken'', JStr ''R:j1'')]"

definition demo_change_body :: json where
  "demo_change_body =
     JObj [(''currentPassword'', JStr ''Admin123!''), (''newPassword'', JStr ''Better456?'')]"

definition demo_reset_body :: json where
  "demo_reset_body = JObj [(''resetToken'', JStr ''P:j9''), (''newPassword'', JStr ''Better456?'')]"

definition demo_otp_db :: db where
  "demo_otp_db =
     demo_db\<lparr>passwordResetOtps :=
       [\<lparr>otp_id = ''o1'', otp_email = ''admin@school.edu'', otpHash = ''654321'',
         otp_expiresAt = 1000, usedAt = None, otp_createdAt = 0\<rparr>]\<rparr>"

definition demo_verify_body :: json where
  "demo_verify_body = JObj [(''email'', JStr ''admin@school.edu''), (''otp'', JStr ''654321'')]"

definition demo_forgot_body :: json where
  "demo_forgot_body = JObj [(''email'', JStr ''admin@school.edu'')]"


section \<open>Unfolding the model on the concrete configuration\<close>

lemmas demo_defs = demo_lib_def demo_env_def demo_user_def demo_db_def demo_rnd_def
  demo_refresh_body_def

lemmas refresh_eval = refresh_def refreshSchema_def hashToken_def refreshToken_findUnique_def
  user_findUnique_id_def buildJwtPayload_def issueAccessToken_def issueRefreshToken_def
  tokenExpiryFromJwt_def refreshToken_update_def refreshToken_create_def is_object_def
  is_string_def nullable_def unauthorized_def success_body_def toSafeUser_def error_body_def
  Let_def

lemmas forgot_eval = forgotPassword_def forgotPasswordSchema_def user_findUnique_email_def
  passwordResetOtp_updateMany_def passwordResetOtp_create_def success_body_def Let_def

lemmas password_eval = changePassword_def changePasswordSchema_def resetPassword_def
  resetPasswordSchema_def newPassword_ok_def is_upper_def is_lower_def is_digit_def
  passwordResetSecret_def user_findUnique_id_def user_update_def refreshToken_updateMany_def
  passwordResetOtp_updateMany_def is_object_def success_body_def unauthorized_def
  invalidResetToken_def error_body_def Let_def

lemmas verify_eval = verifyOtp_def verifyOtpSchema_def trim_def is_space_def is_digit_def
  passwordResetOtp_findFirst_def passwordResetOtp_update_def user_findUnique_email_def
  issuePasswordResetToken_def passwordResetSecret_def invalidOtp_def success_body_def
  error_body_def Let_def

section \<open>Properties of the tenant scope resolver\<close>

lemma js_strict_eq_imp_eq: "js_strict_eq a b \<Longrightarrow> a = b"
  by (cases a) simp_all

lemma js_strict_eq_JStr: "js_strict_eq (JStr a) b = (b = JStr a)"
  by auto

text \<open>
  Claim C5. A caller whose role is not SUPERADMIN is tenant-bound. For such a caller the
  resolver throws the 403 error "School context is missing for current user" when the
  identity carries no tenant id (a falsy \<open>schoolId\<close>); it throws the 403 error "Cannot
  access another school's data" when a requested tenant id is given (truthy) and is not
  strictly equal to the caller's own; otherwise it returns the caller's own tenant id.
  For a SUPERADMIN caller with a requested tenant id given, it returns the requested id.
  The last conjunct is the cross-tenant denial on string ids: tenant \<open>a\<close> asking for
  tenant \<open>b \<noteq> a\<close> gets the 403 error.
\<close>

theorem resolveSchoolId_tenant_scope:
  "(\<not> isSuperadmin u \<and> \<not> truthy (field ''schoolId'' u) \<longrightarrow>
      resolveSchoolId u inp req = Inl (forbidden ''School context is missing for current user''))
   \<and> (\<not> isSuperadmin u \<and> truthy (field ''schoolId'' u) \<and> truthy inp
        \<and> \<not> js_strict_eq inp (field ''schoolId'' u) \<longrightarrow>
      resolveSchoolId u inp req = Inl (forbidden ''Cannot access another school's data''))
   \<and> (\<not> isSuperadmin u \<and> truthy (field ''schoolId'' u)
        \<and> (\<not> truthy inp \<or> js_strict_eq inp (field ''schoolId'' u)) \<longrightarrow>
      resolveSchoolId u inp req = Inr (field ''schoolId'' u))
   \<and> (isSuperadmin u \<and> truthy inp \<longrightarrow> resolveSchoolId u inp req = Inr inp)
   \<and> statusCode (forbidden m) = 403
   \<and> (\<not> isSuperadmin u \<and> field ''schoolId'' u = JStr a \<and> a \<noteq> [] \<and> b \<noteq> [] \<and> b \<noteq> a \<longrightarrow>
      resolveSchoolId u (JStr b) req = Inl (forbidden ''Cannot access another school's data''))"
  by (auto simp: resolveSchoolId_def forbidden_def createHttpError_def Let_def)

theorem resolveSchoolId_tenant_scope_witness:
  "resolveSchoolId (JObj [(''role'', JStr ''TEACHER'')]) (JStr ''s1'') False
     = Inl (forbidden ''School context is missing for current user'')
   \<and> resolveSchoolId (JObj [(''role'', JStr ''TEACHER''), (''schoolId'', JStr ''s1'')]) (JStr ''s2'') False
     = Inl (forbidden ''Cannot access another school's data'')
   \<and> resolveSchoolId (JObj [(''role'', JStr ''TEACHER''), (''schoolId'', JStr ''s1'')]) JUndefined False
     = Inr (JStr ''s1'')
   \<and> resolveSchoolId (JObj [(''role'', JStr ''TEACHER''), (''schoolId'', JStr ''s1'')]) (JStr ''s1'') False
     = Inr (JStr ''s1'')
   \<and> resolveSchoolId (JObj [(''role'', JStr ''SUPERADMIN'')]) (JStr ''s2'') True = Inr (JStr ''s2'')"
  using resolveSchoolId_tenant_scope [of "JObj [(''role'', JStr ''TEACHER'')]" "JStr ''s1''" False]
    resolveSchoolId_tenant_scope
      [of "JObj [(''role'', JStr ''TEACHER''), (''schoolId'', JStr ''s1'')]" "JStr ''s2''" False]
    resolveSchoolId_tenant_scope
      [of "JObj [(''role'', JStr ''TEACHER''), (''schoolId'', JStr ''s1'')]" JUndefined False]
    resolveSchoolId_tenant_scope
      [of "JObj [(''role'', JStr ''TEACHER''), (''schoolId'', JStr ''s1'')]" "JStr ''s1''" False]
    resolveSchoolId_tenant_scope [of "JObj [(''role'', JStr ''SUPERADMIN'')]" "JStr ''s2''" True]
  by (simp add: isSuperadmin_def)

text \<open>
  Claim C6, as stated, fails: a SUPERADMIN caller who omits the tenant id where one is
  required gets an error of status 400, not 403.
\<close>

theorem resolveSchoolId_superadmin_required_counterexample:
  "\<not> (\<exists>e. resolveSchoolId (JObj [(''role'', JStr ''SUPERADMIN'')]) JUndefined True = Inl e
          \<and> statusCode e = 403)"
  by (simp add: resolveSchoolId_def isSuperadmin_def badRequest_def createHttpError_def)

text \<open>
  Claim C6, amended. When a SUPERADMIN caller omits the requested tenant id (a falsy
  value) and the operation requires one, the resolver throws the bad-request error: HTTP
  status 400 with the code SCHOOL_CONTEXT_REQUIRED.
\<close>

theorem resolveSchoolId_superadmin_required:
  "isSuperadmin u \<Longrightarrow> \<not> truthy inp \<Longrightarrow>
     resolveSchoolId u inp True
       = Inl (badRequest ''schoolId is required for SUPERADMIN'' ''SCHOOL_CONTEXT_REQUIRED'')
     \<and> statusCode (badRequest ''schoolId is required for SUPERADMIN'' ''SCHOOL_CONTEXT_REQUIRED'') = 400
     \<and> errorCode (badRequest ''schoolId is required for SUPERADMIN'' ''SCHOOL_CONTEXT_REQUIRED'')
         = ''SCHOOL_CONTEXT_REQUIRED''"
  by (simp add: resolveSchoolId_def badRequest_def createHttpError_def)

theorem resolveSchoolId_superadmin_required_witness:
  "isSuperadmin (JObj [(''role'', JStr ''SUPERADMIN'')]) \<and> \<not> truthy (JStr [])
   \<and> (\<exists>e. resolveSchoolId (JObj [(''role'', JStr ''SUPERADMIN'')]) (JStr []) True = Inl e
          \<and> statusCode e = 400)"
  using resolveSchoolId_superadmin_required [of "JObj [(''role'', JStr ''SUPERADMIN'')]" "JStr []"]
  by (simp add: isSuperadmin_def)


section \<open>Properties of the authenticator\<close>

text \<open>
  Claim C9. Let a non-empty token fail verification under the access secret with the
  error \<open>err\<close>. If the token verifies under the refresh secret and its payload is an
  object of token kind "refresh", the authenticator answers 401 with the message that a
  refresh token cannot be used here. Otherwise, if \<open>err\<close> is the expiry error, it
  answers 401 with the code TOKEN_EXPIRED. Otherwise it answers 401 with the generic
  message "Invalid or expired access token". The three responses are pairwise different.
\<close>

theorem auth_access_failure_cases:
  assumes "token \<noteq> []" and "jwt_verify L token (JWT_ACCESS_SECRET E) t = Inl err"
  shows "auth L E t (Some token) =
      (if (\<exists>p. jwt_verify L token (JWT_REFRESH_SECRET E) t = Inr p \<and> truthy p \<and> is_object p
                \<and> field ''tokenType'' p = JStr ''refresh'')
       then Rejected (Response 401 (error_body ''UNAUTHORIZED''
              ''Refresh token cannot be used here. Send accessToken in Authorization header.''))
       else if err = TokenExpiredError
       then Rejected (Response 401 (error_body ''TOKEN_EXPIRED'' ''Access token expired''))
       else Rejected (Response 401 (error_body ''UNAUTHORIZED'' ''Invalid or expired access token'')))
    \<and> error_body ''UNAUTHORIZED''
            ''Refresh token cannot be used here. Send accessToken in Authorization header.''
          \<noteq> error_body ''TOKEN_EXPIRED'' ''Access token expired''
    \<and> error_body ''UNAUTHORIZED''
            ''Refresh token cannot be used here. Send accessToken in Authorization header.''
          \<noteq> error_body ''UNAUTHORIZED'' ''Invalid or expired access token''
    \<and> error_body ''TOKEN_EXPIRED'' ''Access token expired''
          \<noteq> error_body ''UNAUTHORIZED'' ''Invalid or expired access token''"
proof -
  have "auth L E t (Some token) =
      (if (\<exists>p. jwt_verify L token (JWT_REFRESH_SECRET E) t = Inr p \<and> truthy p \<and> is_object p
                \<and> field ''tokenType'' p = JStr ''refresh'')
       then Rejected (Response 401 (error_body ''UNAUTHORIZED''
              ''Refresh token cannot be used here. Send accessToken in Authorization header.''))
       else if err = TokenExpiredError
       then Rejected (Response 401 (error_body ''TOKEN_EXPIRED'' ''Access token expired''))
       else Rejected (Response 401 (error_body ''UNAUTHORIZED'' ''Invalid or expired access token'')))"
  proof (cases "jwt_verify L token (JWT_REFRESH_SECRET E) t")
    case (Inl e)
    with assms show ?thesis by (simp add: auth_def auth_failure_def)
  next
    case (Inr p)
    with assms show ?thesis
      by (auto simp: auth_def auth_failure_def dest: js_strict_eq_imp_eq)
  qed
  then show ?thesis by (simp add: error_body_def)
qed

theorem auth_access_failure_cases_witness:
  "auth demo_lib demo_env 5 (Some ''R:j1'') = Rejected (Response 401 (error_body ''UNAUTHORIZED''
      ''Refresh token cannot be used here. Send accessToken in Authorization header.''))
   \<and> auth demo_lib demo_env 5 (Some ''stale'')
       = Rejected (Response 401 (error_body ''TOKEN_EXPIRED'' ''Access token expired''))
   \<and> auth demo_lib demo_env 5 (Some ''garbage'')
       = Rejected (Response 401 (error_body ''UNAUTHORIZED'' ''Invalid or expired access token''))"
proof -
  have a: "jwt_verify demo_lib ''R:j1'' (JWT_ACCESS_SECRET demo_env) 5 = Inl JsonWebTokenError"
    and b: "jwt_verify demo_lib ''stale'' (JWT_ACCESS_SECRET demo_env) 5 = Inl TokenExpiredError"
    and c: "jwt_verify demo_lib ''garbage'' (JWT_ACCESS_SECRET demo_env) 5 = Inl JsonWebTokenError"
    by (simp_all add: demo_lib_def demo_env_def)
  have ne: "''R:j1'' \<noteq> []" "''stale'' \<noteq> []" "''garbage'' \<noteq> []" by simp_all
  show ?thesis
    using auth_access_failure_cases [OF ne(1) a] auth_access_failure_cases [OF ne(2) b]
      auth_access_failure_cases [OF ne(3) c]
    by (simp add: demo_lib_def demo_env_def is_object_def)
qed

section \<open>The ledger only grows and only revokes\<close>

lemma find_map_pres: "(\<And>x. P (f x) = P x) \<Longrightarrow> find P (map f xs) = map_option f (find P xs)"
  by (induction xs) auto

lemma find_append_case:
  "find P (xs @ ys) = (case find P xs of None \<Rightarrow> find P ys | Some x \<Rightarrow> Some x)"
  by (induction xs) auto

lemma ledger_evolves_refl: "ledger_evolves D D"
  unfolding ledger_evolves_def by (rule exI [of _ id], rule exI [of _ "[]"]) simp

lemma ledger_evolves_same: "refreshTokens D' = refreshTokens D \<Longrightarrow> ledger_evolves D D'"
  unfolding ledger_evolves_def by (rule exI [of _ id], rule exI [of _ "[]"]) simp

lemma ledger_evolves_trans:
  assumes "ledger_evolves A B" and "ledger_evolves B C"
  shows "ledger_evolves A C"
proof -
  from assms(1) obtain f ex where
    f: "refreshTokens B = map f (refreshTokens A) @ ex"
       "\<forall>r. tokenHash (f r) = tokenHash r \<and> (revokedAt r \<noteq> None \<longrightarrow> revokedAt (f r) \<noteq> None)"
    unfolding ledger_evolves_def by blast
  from assms(2) obtain g ex' where
    g: "refreshTokens C = map g (refreshTokens B) @ ex'"
       "\<forall>r. tokenHash (g r) = tokenHash r \<and> (revokedAt r \<noteq> None \<longrightarrow> revokedAt (g r) \<noteq> None)"
    unfolding ledger_evolves_def by blast
  have "refreshTokens C = map (g \<circ> f) (refreshTokens A) @ (map g ex @ ex')"
    using f(1) g(1) by simp
  moreover have "\<forall>r. tokenHash ((g \<circ> f) r) = tokenHash r
      \<and> (revokedAt r \<noteq> None \<longrightarrow> revokedAt ((g \<circ> f) r) \<noteq> None)"
    using f(2) g(2) by simp
  ultimately show ?thesis unfolding ledger_evolves_def by blast
qed

lemma is_revoked_hash_evolves:
  assumes "ledger_evolves D D'" and "is_revoked_hash h D"
  shows "is_revoked_hash h D'"
proof -
  from assms(1) obtain f ex where
    f: "refreshTokens D' = map f (refreshTokens D) @ ex"
       "\<forall>r. tokenHash (f r) = tokenHash r \<and> (revokedAt r \<noteq> None \<longrightarrow> revokedAt (f r) \<noteq> None)"
    unfolding ledger_evolves_def by blast
  from assms(2) obtain r where r: "find (\<lambda>r. tokenHash r = h) (refreshTokens D) = Some r"
      "revokedAt r \<noteq> None"
    unfolding is_revoked_hash_def refreshToken_findUnique_def by (auto split: option.splits)
  have "find (\<lambda>r. tokenHash r = h) (map f (refreshTokens D)) = Some (f r)"
    using f(2) r(1) by (simp add: find_map_pres)
  then have "find (\<lambda>r. tokenHash r = h) (refreshTokens D') = Some (f r)"
    using f(1) by (simp add: find_append_case)
  then show ?thesis
    using f(2) r(2) unfolding is_revoked_hash_def refreshToken_findUnique_def by simp
qed

lemma user_update_evolving: "evolving (user_update i f)"
  by (auto simp: evolving_def user_update_def split: if_splits intro: ledger_evolves_same)

lemma refreshToken_create_evolving: "evolving (refreshToken_create n c u h x)"
  unfolding evolving_def ledger_evolves_def refreshToken_create_def
  by (auto split: option.splits if_splits intro!: exI [of _ id])

lemma refreshToken_update_evolving: "evolving (refreshToken_update i t)"
  unfolding evolving_def ledger_evolves_def refreshToken_update_def
  by (auto split: if_splits
      intro!: exI [of _ "\<lambda>r. if rt_id r = i then r\<lparr>revokedAt := Some t\<rparr> else r"] exI [of _ "[]"])

lemma refreshToken_updateMany_evolving: "evolving (refreshToken_updateMany wh t)"
  unfolding evolving_def ledger_evolves_def refreshToken_updateMany_def
  by (auto intro!: exI [of _ "\<lambda>r. if wh r \<and> revokedAt r = None then r\<lparr>revokedAt := Some t\<rparr> else r"]
        exI [of _ "[]"])

lemma passwordResetOtp_updateMany_evolving: "evolving (passwordResetOtp_updateMany e t)"
  by (auto simp: evolving_def passwordResetOtp_updateMany_def intro: ledger_evolves_same)

lemma passwordResetOtp_create_evolving: "evolving (passwordResetOtp_create n c e h x)"
  by (auto simp: evolving_def passwordResetOtp_create_def split: if_splits
      intro: ledger_evolves_same)

lemma passwordResetOtp_update_evolving: "evolving (passwordResetOtp_update i t)"
  by (auto simp: evolving_def passwordResetOtp_update_def split: if_splits
      intro: ledger_evolves_same)

lemmas op_evolving = user_update_evolving refreshToken_create_evolving
  refreshToken_update_evolving refreshToken_updateMany_evolving
  passwordResetOtp_updateMany_evolving passwordResetOtp_create_evolving
  passwordResetOtp_update_evolving

lemma transaction_evolves:
  "transaction ops D = Inr D' \<Longrightarrow> list_all evolving ops \<Longrightarrow> ledger_evolves D D'"
proof (induction ops arbitrary: D)
  case Nil
  then show ?case by (simp add: ledger_evolves_refl)
next
  case (Cons a ops)
  from Cons.prems(1) obtain M where M: "a D = Inr M" "transaction ops M = Inr D'"
    by (auto split: sum.splits)
  have "ledger_evolves D M" using Cons.prems(2) M(1) by (simp add: evolving_def)
  moreover have "ledger_evolves M D'" using Cons.IH [of M] Cons.prems(2) M(2) by simp
  ultimately show ?case by (rule ledger_evolves_trans)
qed

lemma login_evolves: "ledger_evolves D (snd (login L E R D b))"
  unfolding login_def Let_def
  by (auto simp del: transaction.simps simp: op_evolving
      split: option.splits sum.splits prod.splits
      intro: ledger_evolves_refl dest!: transaction_evolves)

lemma refresh_evolves: "ledger_evolves D (snd (refresh L E R D b))"
  unfolding refresh_def Let_def
  by (auto simp del: transaction.simps simp: op_evolving
      split: option.splits sum.splits prod.splits
      intro: ledger_evolves_refl dest!: transaction_evolves)

lemma logout_evolves: "ledger_evolves D (snd (logout L E R D b))"
  unfolding logout_def
  using refreshToken_updateMany_evolving
  by (auto simp: evolving_def split: option.splits sum.splits intro: ledger_evolves_refl)

lemma forgotPassword_evolves: "ledger_evolves D (snd (forgotPassword L E R D b))"
  unfolding forgotPassword_def Let_def
  by (auto simp del: transaction.simps simp: op_evolving
      split: option.splits sum.splits prod.splits
      intro: ledger_evolves_refl dest!: transaction_evolves)

lemma verifyOtp_evolves: "ledger_evolves D (snd (verifyOtp L E R D b))"
  unfolding verifyOtp_def Let_def
  using passwordResetOtp_update_evolving
  by (auto simp: evolving_def split: option.splits sum.splits prod.splits
      intro: ledger_evolves_refl)

lemma resetPassword_evolves: "ledger_evolves D (snd (resetPassword L E R D b))"
  unfolding resetPassword_def Let_def
  by (auto simp del: transaction.simps simp: op_evolving
      split: option.splits sum.splits prod.splits json.splits
      intro: ledger_evolves_refl dest!: transaction_evolves)

lemma changePassword_evolves: "ledger_evolves D (snd (changePassword L E R D u b))"
  unfolding changePassword_def Let_def
  by (auto simp del: transaction.simps simp: op_evolving
      split: option.splits sum.splits prod.splits json.splits
      intro: ledger_evolves_refl dest!: transaction_evolves)

lemma handle_evolves: "ledger_evolves D (snd (handle L E D c))"
  by (cases c; cases "snd c")
    (simp_all add: login_evolves refresh_evolves logout_evolves forgotPassword_evolves
      verifyOtp_evolves resetPassword_evolves changePassword_evolves)

lemma run_evolves: "ledger_evolves D (run L E cs D)"
proof (induction cs arbitrary: D)
  case Nil
  show ?case by (simp add: ledger_evolves_refl)
next
  case (Cons c cs)
  have "ledger_evolves D (snd (handle L E D c))" by (rule handle_evolves)
  moreover have "ledger_evolves (snd (handle L E D c)) (run L E cs (snd (handle L E D c)))"
    by (rule Cons.IH)
  ultimately show ?case by (simp add: ledger_evolves_trans)
qed


lemma refresh_success_cases:
  assumes "refresh L E R D b = (Sent (Response 200 p), D')"
  obtains token st u where
    "refreshSchema b = Some token"
    "refreshToken_findUnique D (hashToken L token) = Some st"
    "revokedAt st = None" "\<not> rt_expiresAt st < now R"
    "user_findUnique_id D (rt_userId st) = Some u" "isActive u"
    "transaction
       [refreshToken_update (rt_id st) (now R),
        refreshToken_create (newRowId R) (now R) (user_id u)
          (hashToken L (issueRefreshToken L E R (buildJwtPayload u)))
          (tokenExpiryFromJwt L R (issueRefreshToken L E R (buildJwtPayload u)))] D = Inr D'"
    "p = success_body
       [(''accessToken'', JStr (issueAccessToken L E R (buildJwtPayload u))),
        (''refreshToken'', JStr (issueRefreshToken L E R (buildJwtPayload u))),
        (''user'', toSafeUser u)]"
  using assms unfolding refresh_def Let_def unauthorized_def
  by (simp del: transaction.simps split: option.splits sum.splits if_splits)

lemma refresh_revoked:
  assumes "is_revoked_hash (hashToken L token) D" and "refreshSchema b = Some token"
  shows "\<exists>msg. refresh L E R D b = (Sent (unauthorized msg), D)"
  using assms unfolding refresh_def is_revoked_hash_def
  by (auto split: option.splits sum.splits)

lemma refresh_failure_unchanged:
  "\<not> succeeded (fst (refresh L E R D b)) \<Longrightarrow> snd (refresh L E R D b) = D"
  unfolding refresh_def Let_def
  by (auto simp del: transaction.simps simp: succeeded_def split: option.splits sum.splits if_splits)

lemma refresh_tx_revokes:
  assumes "refreshToken_findUnique D h = Some st"
    and "transaction [refreshToken_update (rt_id st) t, refreshToken_create n c u h' x] D = Inr D'"
  shows "is_revoked_hash h D'"
    and "\<exists>ex. x = Some ex \<and> refreshTokens D' =
        map (\<lambda>r. if rt_id r = rt_id st then r\<lparr>revokedAt := Some t\<rparr> else r) (refreshTokens D)
        @ [\<lparr>rt_id = n, rt_userId = u, tokenHash = h', rt_expiresAt = ex,
            revokedAt = None, rt_createdAt = c\<rparr>]"
proof -
  from assms(2) obtain M where M: "refreshToken_update (rt_id st) t D = Inr M"
      "refreshToken_create n c u h' x M = Inr D'"
    by (auto split: sum.splits)
  from M(1) have Mr: "refreshTokens M =
      map (\<lambda>r. if rt_id r = rt_id st then r\<lparr>revokedAt := Some t\<rparr> else r) (refreshTokens D)"
    by (auto simp: refreshToken_update_def split: if_splits)
  from M(2) obtain ex where ex: "x = Some ex" "refreshTokens D' = refreshTokens M
      @ [\<lparr>rt_id = n, rt_userId = u, tokenHash = h', rt_expiresAt = ex,
            revokedAt = None, rt_createdAt = c\<rparr>]"
    by (auto simp: refreshToken_create_def split: option.splits if_splits)
  show "\<exists>ex. x = Some ex \<and> refreshTokens D' =
        map (\<lambda>r. if rt_id r = rt_id st then r\<lparr>revokedAt := Some t\<rparr> else r) (refreshTokens D)
        @ [\<lparr>rt_id = n, rt_userId = u, tokenHash = h', rt_expiresAt = ex,
            revokedAt = None, rt_createdAt = c\<rparr>]"
    using ex Mr by simp
  have "find (\<lambda>r. tokenHash r = h) (refreshTokens M) = Some (st\<lparr>revokedAt := Some t\<rparr>)"
    using assms(1) unfolding Mr refreshToken_findUnique_def by (simp add: find_map_pres)
  then have "find (\<lambda>r. tokenHash r = h) (refreshTokens D') = Some (st\<lparr>revokedAt := Some t\<rparr>)"
    using ex(2) by (simp add: find_append_case)
  then show "is_revoked_hash h D'"
    by (simp add: is_revoked_hash_def refreshToken_findUnique_def)
qed


section \<open>Properties of the refresh flow\<close>

text \<open>
  Claim C1. When a refresh call succeeds (answers 200) on the token \<open>token\<close>, the
  ledger entry \<open>st\<close> found for the token's hash was not revoked, and the store after
  the call has that entry's revocation timestamp set to the time of the call and one new
  entry, for the refresh token returned in the response; both writes are the one
  transaction of the handler. After that, whatever requests \<open>cs\<close> the service handles
  in between, every refresh call that presents the same token is answered 401
  UNAUTHORIZED and leaves the store as it is. The expiry of the token plays no part.
\<close>

theorem refresh_rotation:
  assumes "refresh L E R D b = (Sent (Response 200 p), D')"
  shows "\<exists>token st u ex.
      refreshSchema b = Some token
      \<and> refreshToken_findUnique D (hashToken L token) = Some st
      \<and> revokedAt st = None
      \<and> refreshTokens D' =
          map (\<lambda>r. if rt_id r = rt_id st then r\<lparr>revokedAt := Some (now R)\<rparr> else r)
            (refreshTokens D)
          @ [\<lparr>rt_id = newRowId R, rt_userId = user_id u,
              tokenHash = hashToken L (issueRefreshToken L E R (buildJwtPayload u)),
              rt_expiresAt = ex, revokedAt = None, rt_createdAt = now R\<rparr>]
      \<and> field ''refreshToken'' (field ''data'' p)
          = JStr (issueRefreshToken L E R (buildJwtPayload u))
      \<and> (\<forall>cs R' b'. refreshSchema b' = Some token \<longrightarrow>
            (\<exists>msg. refresh L E R' (run L E cs D') b'
                    = (Sent (unauthorized msg), run L E cs D')))"
proof -
  from assms obtain token st u where c:
    "refreshSchema b = Some token"
    "refreshToken_findUnique D (hashToken L token) = Some st"
    "revokedAt st = None"
    "transaction
       [refreshToken_update (rt_id st) (now R),
        refreshToken_create (newRowId R) (now R) (user_id u)
          (hashToken L (issueRefreshToken L E R (buildJwtPayload u)))
          (tokenExpiryFromJwt L R (issueRefreshToken L E R (buildJwtPayload u)))] D = Inr D'"
    "p = success_body
       [(''accessToken'', JStr (issueAccessToken L E R (buildJwtPayload u))),
        (''refreshToken'', JStr (issueRefreshToken L E R (buildJwtPayload u))),
        (''user'', toSafeUser u)]"
    by (rule refresh_success_cases)
  from refresh_tx_revokes [OF c(2) c(4)] obtain ex where
    rev: "is_revoked_hash (hashToken L token) D'" and
    led: "refreshTokens D' =
          map (\<lambda>r. if rt_id r = rt_id st then r\<lparr>revokedAt := Some (now R)\<rparr> else r)
            (refreshTokens D)
          @ [\<lparr>rt_id = newRowId R, rt_userId = user_id u,
              tokenHash = hashToken L (issueRefreshToken L E R (buildJwtPayload u)),
              rt_expiresAt = ex, revokedAt = None, rt_createdAt = now R\<rparr>]"
    by blast
  have body: "field ''refreshToken'' (field ''data'' p)
      = JStr (issueRefreshToken L E R (buildJwtPayload u))"
    unfolding c(5) by (simp add: success_body_def)
  have later: "\<exists>msg. refresh L E R' (run L E cs D') b' = (Sent (unauthorized msg), run L E cs D')"
    if "refreshSchema b' = Some token" for cs R' b'
  proof -
    have "is_revoked_hash (hashToken L token) (run L E cs D')"
      using run_evolves rev by (rule is_revoked_hash_evolves)
    then show ?thesis using that by (rule refresh_revoked)
  qed
  show ?thesis using c(1,2,3) led body later by blast
qed

theorem refresh_rotation_witness:
  "fst (refresh demo_lib demo_env demo_rnd demo_db demo_refresh_body)
     = Sent (Response 200 (success_body
         [(''accessToken'', JStr ''A''), (''refreshToken'', JStr ''R:j2''),
          (''user'', toSafeUser demo_user)]))
   \<and> (\<exists>msg. fst (refresh demo_lib demo_env demo_rnd
                 (snd (refresh demo_lib demo_env demo_rnd demo_db demo_refresh_body))
                 demo_refresh_body) = Sent (unauthorized msg))"
proof -
  have hf: "fst (refresh demo_lib demo_env demo_rnd demo_db demo_refresh_body)
     = Sent (Response 200 (success_body
         [(''accessToken'', JStr ''A''), (''refreshToken'', JStr ''R:j2''),
          (''user'', toSafeUser demo_user)]))"
    by (simp add: demo_defs refresh_eval)
  then have h: "refresh demo_lib demo_env demo_rnd demo_db demo_refresh_body
     = (Sent (Response 200 (success_body
         [(''accessToken'', JStr ''A''), (''refreshToken'', JStr ''R:j2''),
          (''user'', toSafeUser demo_user)])),
        snd (refresh demo_lib demo_env demo_rnd demo_db demo_refresh_body))"
    by (cases "refresh demo_lib demo_env demo_rnd demo_db demo_refresh_body") simp
  from refresh_rotation [OF h] obtain token where
    t: "refreshSchema demo_refresh_body = Some token"
    and l: "\<forall>cs R' b'. refreshSchema b' = Some token \<longrightarrow>
          (\<exists>msg. refresh demo_lib demo_env R'
               (run demo_lib demo_env cs
                  (snd (refresh demo_lib demo_env demo_rnd demo_db demo_refresh_body))) b'
             = (Sent (unauthorized msg),
                run demo_lib demo_env cs
                  (snd (refresh demo_lib demo_env demo_rnd demo_db demo_refresh_body))))"
    by blast
  from l t have "\<exists>msg. refresh demo_lib demo_env demo_rnd
       (run demo_lib demo_env [] (snd (refresh demo_lib demo_env demo_rnd demo_db demo_refresh_body)))
       demo_refresh_body
     = (Sent (unauthorized msg),
        run demo_lib demo_env [] (snd (refresh demo_lib demo_env demo_rnd demo_db demo_refresh_body)))"
    by blast
  then have "\<exists>msg. fst (refresh demo_lib demo_env demo_rnd
                 (snd (refresh demo_lib demo_env demo_rnd demo_db demo_refresh_body))
                 demo_refresh_body) = Sent (unauthorized msg)"
    by auto
  then show ?thesis using hf by blast
qed

text \<open>
  Claim C10. A refresh request that is not answered 200 leaves the store as it was: the
  rejections for a malformed body, a bad signature, a wrong token kind, a missing or
  revoked entry, an expired entry and an inactive user return before any write, and a
  transaction that throws is rolled back. Conversely, the store differs after the call
  only when the body parsed, the token verified as a refresh token with a string subject,
  and the ledger entry of its hash was present, unrevoked, unexpired and owned by an
  active user.
\<close>

theorem refresh_rejection_no_write:
  "(\<not> succeeded (fst (refresh L E R D b)) \<longrightarrow> snd (refresh L E R D b) = D)
   \<and> (snd (refresh L E R D b) \<noteq> D \<longrightarrow>
        (\<exists>token decoded st u.
           refreshSchema b = Some token
           \<and> jwt_verify L token (JWT_REFRESH_SECRET E) (now R) = Inr decoded
           \<and> truthy decoded \<and> is_object decoded
           \<and> field ''tokenType'' decoded = JStr ''refresh''
           \<and> is_string (field ''sub'' decoded)
           \<and> refreshToken_findUnique D (hashToken L token) = Some st
           \<and> revokedAt st = None \<and> \<not> rt_expiresAt st < now R
           \<and> user_findUnique_id D (rt_userId st) = Some u \<and> isActive u))"
proof -
  have "\<exists>token decoded st u.
           refreshSchema b = Some token
           \<and> jwt_verify L token (JWT_REFRESH_SECRET E) (now R) = Inr decoded
           \<and> truthy decoded \<and> is_object decoded
           \<and> field ''tokenType'' decoded = JStr ''refresh''
           \<and> is_string (field ''sub'' decoded)
           \<and> refreshToken_findUnique D (hashToken L token) = Some st
           \<and> revokedAt st = None \<and> \<not> rt_expiresAt st < now R
           \<and> user_findUnique_id D (rt_userId st) = Some u \<and> isActive u"
    if "snd (refresh L E R D b) \<noteq> D"
    using that unfolding refresh_def Let_def
    by (auto simp del: transaction.simps split: option.splits sum.splits if_splits
        dest: js_strict_eq_imp_eq)
  then show ?thesis using refresh_failure_unchanged by blast
qed

theorem refresh_rejection_no_write_witness:
  "\<not> succeeded (fst (refresh demo_lib demo_env demo_rnd
        (demo_db\<lparr>refreshTokens := map (\<lambda>r. r\<lparr>revokedAt := Some 3\<rparr>) (refreshTokens demo_db)\<rparr>)
        demo_refresh_body))
   \<and> snd (refresh demo_lib demo_env demo_rnd
        (demo_db\<lparr>refreshTokens := map (\<lambda>r. r\<lparr>revokedAt := Some 3\<rparr>) (refreshTokens demo_db)\<rparr>)
        demo_refresh_body)
     = demo_db\<lparr>refreshTokens := map (\<lambda>r. r\<lparr>revokedAt := Some 3\<rparr>) (refreshTokens demo_db)\<rparr>
   \<and> snd (refresh demo_lib demo_env demo_rnd demo_db demo_refresh_body) \<noteq> demo_db
   \<and> refreshToken_findUnique demo_db (hashToken demo_lib ''R:j1'')
       = Some \<lparr>rt_id = ''t1'', rt_userId = ''u1'', tokenHash = ''R:j1'', rt_expiresAt = 1000,
          revokedAt = None, rt_createdAt = 0\<rparr>"
proof -
  have f: "\<not> succeeded (fst (refresh demo_lib demo_env demo_rnd
        (demo_db\<lparr>refreshTokens := map (\<lambda>r. r\<lparr>revokedAt := Some 3\<rparr>) (refreshTokens demo_db)\<rparr>)
        demo_refresh_body))"
    by (simp add: demo_defs refresh_eval succeeded_def)
  have g: "snd (refresh demo_lib demo_env demo_rnd demo_db demo_refresh_body) \<noteq> demo_db"
    by (simp add: demo_defs refresh_eval)
  show ?thesis
    using f g
      refresh_rejection_no_write [of demo_lib demo_env demo_rnd
        "demo_db\<lparr>refreshTokens := map (\<lambda>r. r\<lparr>revokedAt := Some 3\<rparr>) (refreshTokens demo_db)\<rparr>"
        demo_refresh_body]
      refresh_rejection_no_write [of demo_lib demo_env demo_rnd demo_db demo_refresh_body]
    by (simp add: demo_defs hashToken_def refreshToken_findUnique_def refreshSchema_def)
qed

text \<open>
  Claim C8, as stated, fails: a revoked entry, an expired entry and an inactive owner are
  answered with three different messages, so the response tells which check failed.
\<close>

theorem refresh_ledger_failure_generic_counterexample:
  "fst (refresh demo_lib demo_env demo_rnd
          (demo_db\<lparr>refreshTokens := map (\<lambda>r. r\<lparr>revokedAt := Some 3\<rparr>) (refreshTokens demo_db)\<rparr>)
          demo_refresh_body)
     = Sent (unauthorized ''Refresh token is revoked or invalid'')
   \<and> fst (refresh demo_lib demo_env (demo_rnd\<lparr>now := 2000\<rparr>) demo_db demo_refresh_body)
     = Sent (unauthorized ''Refresh token is expired'')
   \<and> fst (refresh demo_lib demo_env demo_rnd
          (demo_db\<lparr>users := map (\<lambda>u. u\<lparr>isActive := False\<rparr>) (users demo_db)\<rparr>)
          demo_refresh_body)
     = Sent (unauthorized ''User is inactive'')
   \<and> unauthorized ''Refresh token is revoked or invalid'' \<noteq> unauthorized ''Refresh token is expired''
   \<and> unauthorized ''Refresh token is expired'' \<noteq> unauthorized ''User is inactive''"
  by (simp add: demo_defs refresh_eval)

text \<open>
  Claim C8, amended. Once the token has verified as a refresh token, every ledger-level
  failure is answered 401 with the code UNAUTHORIZED and leaves the store unchanged; the
  message is "Refresh token is revoked or invalid" when the entry is missing or revoked,
  "Refresh token is expired" when it has expired, and "User is inactive" when the owning
  user is missing or inactive.
\<close>

theorem refresh_ledger_failure_messages:
  assumes "refreshSchema b = Some token"
    and "jwt_verify L token (JWT_REFRESH_SECRET E) (now R) = Inr decoded"
    and "truthy decoded" and "is_object decoded"
    and "field ''tokenType'' decoded = JStr ''refresh''"
    and "is_string (field ''sub'' decoded)"
  shows "(refreshToken_findUnique D (hashToken L token) = None
          \<or> (\<exists>st. refreshToken_findUnique D (hashToken L token) = Some st \<and> revokedAt st \<noteq> None)
        \<longrightarrow> refresh L E R D b = (Sent (unauthorized ''Refresh token is revoked or invalid''), D))
     \<and> ((\<exists>st. refreshToken_findUnique D (hashToken L token) = Some st \<and> revokedAt st = None
              \<and> rt_expiresAt st < now R)
        \<longrightarrow> refresh L E R D b = (Sent (unauthorized ''Refresh token is expired''), D))
     \<and> ((\<exists>st. refreshToken_findUnique D (hashToken L token) = Some st \<and> revokedAt st = None
              \<and> \<not> rt_expiresAt st < now R
              \<and> (user_findUnique_id D (rt_userId st) = None
                  \<or> (\<exists>u. user_findUnique_id D (rt_userId st) = Some u \<and> \<not> isActive u)))
        \<longrightarrow> refresh L E R D b = (Sent (unauthorized ''User is inactive''), D))
     \<and> (\<forall>msg. status (unauthorized msg) = 401
           \<and> field ''code'' (field ''error'' (body (unauthorized msg))) = JStr ''UNAUTHORIZED''
           \<and> field ''message'' (field ''error'' (body (unauthorized msg))) = JStr msg)"
  using assms unfolding refresh_def
  by (auto simp: unauthorized_def error_body_def)

theorem refresh_ledger_failure_messages_witness:
  "refresh demo_lib demo_env demo_rnd
          (demo_db\<lparr>refreshTokens := map (\<lambda>r. r\<lparr>revokedAt := Some 3\<rparr>) (refreshTokens demo_db)\<rparr>)
          demo_refresh_body
     = (Sent (unauthorized ''Refresh token is revoked or invalid''),
        demo_db\<lparr>refreshTokens := map (\<lambda>r. r\<lparr>revokedAt := Some 3\<rparr>) (refreshTokens demo_db)\<rparr>)
   \<and> refresh demo_lib demo_env (demo_rnd\<lparr>now := 2000\<rparr>) demo_db demo_refresh_body
     = (Sent (unauthorized ''Refresh token is expired''), demo_db)
   \<and> refresh demo_lib demo_env demo_rnd
          (demo_db\<lparr>users := map (\<lambda>u. u\<lparr>isActive := False\<rparr>) (users demo_db)\<rparr>)
          demo_refresh_body
     = (Sent (unauthorized ''User is inactive''),
        demo_db\<lparr>users := map (\<lambda>u. u\<lparr>isActive := False\<rparr>) (users demo_db)\<rparr>)"
proof -
  have p: "refreshSchema demo_refresh_body = Some ''R:j1''"
    by (simp add: demo_refresh_body_def refreshSchema_def)
  have v: "jwt_verify demo_lib ''R:j1'' (JWT_REFRESH_SECRET demo_env) t
      = Inr (JObj [(''sub'', JStr ''u1''), (''tokenType'', JStr ''refresh'')])" for t
    by (simp add: demo_lib_def demo_env_def)
  have c: "truthy (JObj [(''sub'', JStr ''u1''), (''tokenType'', JStr ''refresh'')])"
    "is_object (JObj [(''sub'', JStr ''u1''), (''tokenType'', JStr ''refresh'')])"
    "field ''tokenType'' (JObj [(''sub'', JStr ''u1''), (''tokenType'', JStr ''refresh'')])
       = JStr ''refresh''"
    "is_string (field ''sub'' (JObj [(''sub'', JStr ''u1''), (''tokenType'', JStr ''refresh'')]))"
    by (simp_all add: is_object_def is_string_def)
  show ?thesis
    using refresh_ledger_failure_messages [where R = demo_rnd and D =
        "demo_db\<lparr>refreshTokens := map (\<lambda>r. r\<lparr>revokedAt := Some 3\<rparr>) (refreshTokens demo_db)\<rparr>",
        OF p v c]
      refresh_ledger_failure_messages [where R = "demo_rnd\<lparr>now := 2000\<rparr>" and D = demo_db,
        OF p v c]
      refresh_ledger_failure_messages [where R = demo_rnd and D =
        "demo_db\<lparr>users := map (\<lambda>u. u\<lparr>isActive := False\<rparr>) (users demo_db)\<rparr>",
        OF p v c]
    by (simp add: demo_defs hashToken_def refreshToken_findUnique_def user_findUnique_id_def)
qed

section \<open>Properties of forgot-password\<close>

text \<open>
  Claim C7 does not hold of the code. In production, with the mail service configured,
  the request for an unknown email is answered 200 with the data \<open>{message}\<close>, and the
  request for the email of an active account is answered 200 with the data
  \<open>{message, otpExpiresAt}\<close>: the same status and message, but a different set of
  properties, which tells the two cases apart.
\<close>

theorem forgotPassword_shape_differs:
  "fst (forgotPassword demo_lib demo_env demo_rnd demo_db (JObj [(''email'', JStr ''nobody@school.edu'')]))
     = Sent (Response 200 (success_body
         [(''message'', JStr ''If your account exists, a verification code has been generated'')]))
   \<and> fst (forgotPassword demo_lib demo_env demo_rnd demo_db (JObj [(''email'', JStr ''admin@school.edu'')]))
     = Sent (Response 200 (success_body
         [(''message'', JStr ''If your account exists, a verification code has been generated''),
          (''otpExpiresAt'', JStr ''1970-01-01T00:10:00.005Z'')]))
   \<and> keys (JObj [(''message'', JStr ''If your account exists, a verification code has been generated'')])
     \<noteq> keys (JObj [(''message'', JStr ''If your account exists, a verification code has been generated''),
          (''otpExpiresAt'', JStr ''1970-01-01T00:10:00.005Z'')])"
  by (simp add: demo_defs forgot_eval keys_def)

section \<open>Properties of logout\<close>

lemma revoke_twice:
  "map (\<lambda>r. if wh r \<and> revokedAt r = None then r\<lparr>revokedAt := Some t'\<rparr> else r)
     (map (\<lambda>r. if wh r \<and> revokedAt r = None then r\<lparr>revokedAt := Some t\<rparr> else r) xs)
   = map (\<lambda>r. if wh r \<and> revokedAt r = None then r\<lparr>revokedAt := Some t\<rparr> else r) xs"
  by (induction xs) auto

text \<open>
  Claim C4. For every store and every request body that carries a non-empty refresh
  token, logout answers 200 with "Logged out", whatever the ledger holds for the token
  (a live entry, a revoked one or none), so the answer tells nothing about the token.
  The store afterwards has the revocation timestamp set on exactly the entries of the
  token's hash whose timestamp was null. A second logout with the same body, at any
  time, answers the same and leaves the store as the first call left it.
\<close>

theorem logout_idempotent:
  assumes "field ''refreshToken'' (JObj kvs) = JStr token" and "token \<noteq> []"
  shows "fst (logout L E R D (JObj kvs))
           = Sent (Response 200 (success_body [(''message'', JStr ''Logged out'')]))
     \<and> refreshTokens (snd (logout L E R D (JObj kvs)))
           = map (\<lambda>r. if tokenHash r = hashToken L token \<and> revokedAt r = None
                       then r\<lparr>revokedAt := Some (now R)\<rparr> else r) (refreshTokens D)
     \<and> logout L E R' (snd (logout L E R D (JObj kvs))) (JObj kvs)
           = (Sent (Response 200 (success_body [(''message'', JStr ''Logged out'')])),
              snd (logout L E R D (JObj kvs)))"
proof -
  have p: "logoutSchema (if truthy (JObj kvs) then JObj kvs else JObj []) = Some (Some token)"
    using assms by (simp add: logoutSchema_def Suc_le_eq)
  have one: "logout L E R D (JObj kvs)
      = (Sent (Response 200 (success_body [(''message'', JStr ''Logged out'')])),
         D\<lparr>refreshTokens := map (\<lambda>r. if tokenHash r = hashToken L token \<and> revokedAt r = None
                       then r\<lparr>revokedAt := Some (now R)\<rparr> else r) (refreshTokens D)\<rparr>)" for R D
    unfolding logout_def p by (simp add: refreshToken_updateMany_def)
  show ?thesis unfolding one by (simp add: revoke_twice)
qed

theorem logout_idempotent_witness:
  "fst (logout demo_lib demo_env demo_rnd demo_db demo_refresh_body)
     = Sent (Response 200 (success_body [(''message'', JStr ''Logged out'')]))
   \<and> refreshTokens (snd (logout demo_lib demo_env demo_rnd demo_db demo_refresh_body))
     = [\<lparr>rt_id = ''t1'', rt_userId = ''u1'', tokenHash = ''R:j1'', rt_expiresAt = 1000,
          revokedAt = Some 5, rt_createdAt = 0\<rparr>]
   \<and> logout demo_lib demo_env (demo_rnd\<lparr>now := 9\<rparr>)
        (snd (logout demo_lib demo_env demo_rnd demo_db demo_refresh_body)) demo_refresh_body
     = (Sent (Response 200 (success_body [(''message'', JStr ''Logged out'')])),
        snd (logout demo_lib demo_env demo_rnd demo_db demo_refresh_body))"
proof -
  have f: "field ''refreshToken'' (JObj [(''refreshToken'', JStr ''R:j1'')]) = JStr ''R:j1''"
    by simp
  have n: "''R:j1'' \<noteq> []" by simp
  show ?thesis
    using logout_idempotent [OF f n, of demo_lib demo_env demo_rnd demo_db "demo_rnd\<lparr>now := 9\<rparr>"]
    by (simp add: demo_defs hashToken_def)
qed

section \<open>Properties of change-password and reset-password\<close>

lemma changePassword_success_cases:
  assumes "changePassword L E R D req_user b = (Sent (Response 200 p), D')"
  obtains uid currentPassword newPassword u where
    "field ''sub'' req_user = JStr uid"
    "changePasswordSchema b = Some (currentPassword, newPassword)"
    "user_findUnique_id D uid = Some u" "isActive u"
    "transaction
       [user_update (user_id u) (\<lambda>x. x\<lparr>passwordHash := bcrypt_hash L newPassword (salt R)\<rparr>),
        refreshToken_updateMany (\<lambda>r. rt_userId r = user_id u) (now R)] D = Inr D'"
  using assms unfolding changePassword_def Let_def unauthorized_def
  by (auto simp del: transaction.simps split: option.splits sum.splits if_splits json.splits)

lemma resetPassword_success_cases:
  assumes "resetPassword L E R D b = (Sent (Response 200 p), D')"
  obtains resetToken newPassword decoded uid u where
    "resetPasswordSchema b = Some (resetToken, newPassword)"
    "jwt_verify L resetToken (passwordResetSecret E) (now R) = Inr decoded"
    "field ''sub'' decoded = JStr uid"
    "user_findUnique_id D uid = Some u" "isActive u"
    "transaction
       [user_update (user_id u) (\<lambda>x. x\<lparr>passwordHash := bcrypt_hash L newPassword (salt R)\<rparr>),
        refreshToken_updateMany (\<lambda>r. rt_userId r = user_id u) (now R),
        passwordResetOtp_updateMany (user_email u) (now R)] D = Inr D'"
  using assms unfolding resetPassword_def Let_def invalidResetToken_def
  by (auto simp del: transaction.simps split: option.splits sum.splits if_splits json.splits)

lemma user_findUnique_id_Some: "user_findUnique_id D i = Some u \<Longrightarrow> user_id u = i"
  unfolding user_findUnique_id_def by (auto simp: find_Some_iff)

lemma changePasswordSchema_newPassword:
  "changePasswordSchema b = Some (c, n) \<Longrightarrow> field ''newPassword'' b = JStr n"
  by (auto simp: changePasswordSchema_def split: json.splits if_splits)

lemma resetPasswordSchema_newPassword:
  "resetPasswordSchema b = Some (c, n) \<Longrightarrow> field ''newPassword'' b = JStr n"
  by (auto simp: resetPasswordSchema_def split: json.splits if_splits)

lemma password_tx_effect:
  assumes "transaction (user_update i f # refreshToken_updateMany wh t # rest) D = Inr D'"
    and "list_all (\<lambda>operation. \<forall>A B. operation A = Inr B \<longrightarrow>
           users B = users A \<and> refreshTokens B = refreshTokens A) rest"
  shows "users D' = map (\<lambda>u. if user_id u = i then f u else u) (users D)"
    and "refreshTokens D' =
      map (\<lambda>r. if wh r \<and> revokedAt r = None then r\<lparr>revokedAt := Some t\<rparr> else r) (refreshTokens D)"
proof -
  from assms(1) obtain M N where M: "user_update i f D = Inr M"
    and N: "refreshToken_updateMany wh t M = Inr N" and r: "transaction rest N = Inr D'"
    by (auto split: sum.splits)
  have keep: "users D' = users N \<and> refreshTokens D' = refreshTokens N"
    using r assms(2)
  proof (induction rest arbitrary: N)
    case Nil
    then show ?case by simp
  next
    case (Cons a rest)
    from Cons.prems(1) obtain K where K: "a N = Inr K" "transaction rest K = Inr D'"
      by (auto split: sum.splits)
    have "users K = users N \<and> refreshTokens K = refreshTokens N" using Cons.prems(2) K(1) by simp
    moreover have "users D' = users K \<and> refreshTokens D' = refreshTokens K"
      using Cons.IH [OF K(2)] Cons.prems(2) by simp
    ultimately show ?case by simp
  qed
  have Mu: "users M = map (\<lambda>u. if user_id u = i then f u else u) (users D)"
      "refreshTokens M = refreshTokens D"
    using M by (auto simp: user_update_def split: if_splits)
  have Nu: "users N = users M" "refreshTokens N =
      map (\<lambda>r. if wh r \<and> revokedAt r = None then r\<lparr>revokedAt := Some t\<rparr> else r) (refreshTokens M)"
    using N by (auto simp: refreshToken_updateMany_def)
  show "users D' = map (\<lambda>u. if user_id u = i then f u else u) (users D)"
    using keep Mu Nu by simp
  show "refreshTokens D' =
      map (\<lambda>r. if wh r \<and> revokedAt r = None then r\<lparr>revokedAt := Some t\<rparr> else r) (refreshTokens D)"
    using keep Mu Nu by simp
qed

lemma revoked_after_updateMany:
  assumes "refreshTokens D' =
      map (\<lambda>r. if wh r \<and> revokedAt r = None then r\<lparr>revokedAt := Some t\<rparr> else r) (refreshTokens D)"
    and "refreshToken_findUnique D h = Some st" and "wh st"
  shows "is_revoked_hash h D'"
proof -
  have "find (\<lambda>r. tokenHash r = h) (refreshTokens D')
      = Some (if wh st \<and> revokedAt st = None then st\<lparr>revokedAt := Some t\<rparr> else st)"
    using assms(2) unfolding assms(1) refreshToken_findUnique_def
    by (subst find_map_pres) auto
  then show ?thesis using assms(3)
    by (auto simp: is_revoked_hash_def refreshToken_findUnique_def)
qed

lemma all_revoked_after_updateMany:
  "list_all (\<lambda>r. wh r \<longrightarrow> revokedAt r \<noteq> None)
     (map (\<lambda>r. if wh r \<and> revokedAt r = None then r\<lparr>revokedAt := Some t\<rparr> else r) xs)"
  if "\<And>r v. wh (r\<lparr>revokedAt := v\<rparr>) = wh r"
  using that by (induction xs) auto


text \<open>
  Claim C2. Let a change-password call of the user \<open>uid\<close> (the subject of
  \<open>req.user\<close>), or a reset-password call with a reset token whose verified subject is
  \<open>uid\<close>, succeed. Then the store afterwards is the store before with, in the one
  transaction, the password hash of \<open>uid\<close> replaced by the hash of the new password and
  the revocation timestamp set on every entry of \<open>uid\<close> that had none; so every ledger
  entry of \<open>uid\<close> is revoked. For every token whose ledger entry belongs to \<open>uid\<close>,
  every refresh call that presents it afterwards, whatever requests the service handles
  in between, is answered 401 UNAUTHORIZED and changes nothing.
\<close>

theorem password_change_revokes_sessions:
  assumes "(\<exists>req_user. changePassword L E R D req_user b = (Sent (Response 200 p), D')
              \<and> field ''sub'' req_user = JStr uid)
         \<or> (\<exists>resetToken newPassword decoded.
              resetPassword L E R D b = (Sent (Response 200 p), D')
              \<and> resetPasswordSchema b = Some (resetToken, newPassword)
              \<and> jwt_verify L resetToken (passwordResetSecret E) (now R) = Inr decoded
              \<and> field ''sub'' decoded = JStr uid)"
  shows "\<exists>newPassword.
      field ''newPassword'' b = JStr newPassword
      \<and> users D' = map (\<lambda>x. if user_id x = uid
                          then x\<lparr>passwordHash := bcrypt_hash L newPassword (salt R)\<rparr> else x) (users D)
      \<and> refreshTokens D' = map (\<lambda>r. if rt_userId r = uid \<and> revokedAt r = None
                          then r\<lparr>revokedAt := Some (now R)\<rparr> else r) (refreshTokens D)
      \<and> list_all (\<lambda>r. rt_userId r = uid \<longrightarrow> revokedAt r \<noteq> None) (refreshTokens D')
      \<and> (\<forall>token st cs R' b'.
            refreshToken_findUnique D (hashToken L token) = Some st \<and> rt_userId st = uid
            \<and> refreshSchema b' = Some token \<longrightarrow>
            (\<exists>msg. refresh L E R' (run L E cs D') b'
                    = (Sent (unauthorized msg), run L E cs D')))"
proof -
  have "\<exists>newPassword. field ''newPassword'' b = JStr newPassword
      \<and> users D' = map (\<lambda>x. if user_id x = uid
                          then x\<lparr>passwordHash := bcrypt_hash L newPassword (salt R)\<rparr> else x) (users D)
      \<and> refreshTokens D' = map (\<lambda>r. if rt_userId r = uid \<and> revokedAt r = None
                          then r\<lparr>revokedAt := Some (now R)\<rparr> else r) (refreshTokens D)"
    using assms
  proof (elim disjE exE conjE)
    fix req_user
    assume ok: "changePassword L E R D req_user b = (Sent (Response 200 p), D')"
      and sub: "field ''sub'' req_user = JStr uid"
    from ok obtain uid' cur new u where c:
      "field ''sub'' req_user = JStr uid'"
      "changePasswordSchema b = Some (cur, new)"
      "user_findUnique_id D uid' = Some u"
      "transaction
       [user_update (user_id u) (\<lambda>x. x\<lparr>passwordHash := bcrypt_hash L new (salt R)\<rparr>),
        refreshToken_updateMany (\<lambda>r. rt_userId r = user_id u) (now R)] D = Inr D'"
      by (rule changePassword_success_cases)
    have u: "user_id u = uid" using c(1,3) sub by (auto dest: user_findUnique_id_Some)
    show ?thesis
      using password_tx_effect [OF c(4)] changePasswordSchema_newPassword [OF c(2)]
      unfolding u by simp
  next
    fix resetToken newPassword decoded
    assume ok: "resetPassword L E R D b = (Sent (Response 200 p), D')"
      and parsed: "resetPasswordSchema b = Some (resetToken, newPassword)"
      and ver: "jwt_verify L resetToken (passwordResetSecret E) (now R) = Inr decoded"
      and sub: "field ''sub'' decoded = JStr uid"
    from ok obtain resetToken' new decoded' uid' u where c:
      "resetPasswordSchema b = Some (resetToken', new)"
      "jwt_verify L resetToken' (passwordResetSecret E) (now R) = Inr decoded'"
      "field ''sub'' decoded' = JStr uid'"
      "user_findUnique_id D uid' = Some u"
      "transaction
       [user_update (user_id u) (\<lambda>x. x\<lparr>passwordHash := bcrypt_hash L new (salt R)\<rparr>),
        refreshToken_updateMany (\<lambda>r. rt_userId r = user_id u) (now R),
        passwordResetOtp_updateMany (user_email u) (now R)] D = Inr D'"
      by (rule resetPassword_success_cases)
    have "uid' = uid" using c(1,2,3) parsed ver sub by simp
    then have u: "user_id u = uid" using c(4) by (auto dest: user_findUnique_id_Some)
    have rest: "list_all (\<lambda>operation. \<forall>A B. operation A = Inr B \<longrightarrow>
           users B = users A \<and> refreshTokens B = refreshTokens A)
         [passwordResetOtp_updateMany (user_email u) (now R)]"
      by (auto simp: passwordResetOtp_updateMany_def)
    show ?thesis
      using password_tx_effect [OF c(5) rest] resetPasswordSchema_newPassword [OF c(1)]
      unfolding u by simp
  qed
  then obtain newPassword where n: "field ''newPassword'' b = JStr newPassword"
    and us: "users D' = map (\<lambda>x. if user_id x = uid
                          then x\<lparr>passwordHash := bcrypt_hash L newPassword (salt R)\<rparr> else x) (users D)"
    and rs: "refreshTokens D' = map (\<lambda>r. if rt_userId r = uid \<and> revokedAt r = None
                          then r\<lparr>revokedAt := Some (now R)\<rparr> else r) (refreshTokens D)"
    by blast
  have every: "list_all (\<lambda>r. rt_userId r = uid \<longrightarrow> revokedAt r \<noteq> None) (refreshTokens D')"
    unfolding rs by (rule all_revoked_after_updateMany) simp
  have later: "\<exists>msg. refresh L E R' (run L E cs D') b' = (Sent (unauthorized msg), run L E cs D')"
    if "refreshToken_findUnique D (hashToken L token) = Some st" and "rt_userId st = uid"
      and "refreshSchema b' = Some token" for token st cs R' b'
  proof -
    have "is_revoked_hash (hashToken L token) D'"
      using rs that(1,2) by (rule revoked_after_updateMany)
    with run_evolves have "is_revoked_hash (hashToken L token) (run L E cs D')"
      by (rule is_revoked_hash_evolves)
    then show ?thesis using that(3) by (rule refresh_revoked)
  qed
  show ?thesis using n us rs every later by blast
qed

theorem password_change_revokes_sessions_witness:
  "succeeded (fst (changePassword demo_lib demo_env demo_rnd demo_db
        (JObj [(''sub'', JStr ''u1'')]) demo_change_body))
   \<and> (\<exists>msg. fst (refresh demo_lib demo_env demo_rnd
          (snd (changePassword demo_lib demo_env demo_rnd demo_db
             (JObj [(''sub'', JStr ''u1'')]) demo_change_body)) demo_refresh_body)
        = Sent (unauthorized msg))
   \<and> succeeded (fst (resetPassword demo_lib demo_env demo_rnd demo_db demo_reset_body))
   \<and> (\<exists>msg. fst (refresh demo_lib demo_env demo_rnd
          (snd (resetPassword demo_lib demo_env demo_rnd demo_db demo_reset_body))
          demo_refresh_body)
        = Sent (unauthorized msg))"
proof -
  let ?p1 = "success_body [(''message'', JStr ''Password changed successfully. Please login again.'')]"
  let ?p2 = "success_body [(''message'', JStr ''Password reset successful. Please login again.'')]"
  let ?D1 = "snd (changePassword demo_lib demo_env demo_rnd demo_db
             (JObj [(''sub'', JStr ''u1'')]) demo_change_body)"
  let ?D2 = "snd (resetPassword demo_lib demo_env demo_rnd demo_db demo_reset_body)"
  have f1: "fst (changePassword demo_lib demo_env demo_rnd demo_db
        (JObj [(''sub'', JStr ''u1'')]) demo_change_body) = Sent (Response 200 ?p1)"
    by (simp add: demo_defs demo_change_body_def password_eval)
  then have h1: "changePassword demo_lib demo_env demo_rnd demo_db
        (JObj [(''sub'', JStr ''u1'')]) demo_change_body = (Sent (Response 200 ?p1), ?D1)"
    by (cases "changePassword demo_lib demo_env demo_rnd demo_db
        (JObj [(''sub'', JStr ''u1'')]) demo_change_body") simp
  have f2: "fst (resetPassword demo_lib demo_env demo_rnd demo_db demo_reset_body)
      = Sent (Response 200 ?p2)"
    by (simp add: demo_defs demo_reset_body_def password_eval)
  then have h2: "resetPassword demo_lib demo_env demo_rnd demo_db demo_reset_body
      = (Sent (Response 200 ?p2), ?D2)"
    by (cases "resetPassword demo_lib demo_env demo_rnd demo_db demo_reset_body") simp
  have a1: "(\<exists>req_user. changePassword demo_lib demo_env demo_rnd demo_db req_user demo_change_body
                = (Sent (Response 200 ?p1), ?D1) \<and> field ''sub'' req_user = JStr ''u1'')
         \<or> (\<exists>resetToken newPassword decoded.
              resetPassword demo_lib demo_env demo_rnd demo_db demo_change_body
                = (Sent (Response 200 ?p1), ?D1)
              \<and> resetPasswordSchema demo_change_body = Some (resetToken, newPassword)
              \<and> jwt_verify demo_lib resetToken (passwordResetSecret demo_env) (now demo_rnd)
                  = Inr decoded
              \<and> field ''sub'' decoded = JStr ''u1'')"
  proof -
    have "field ''sub'' (JObj [(''sub'', JStr ''u1'')]) = JStr ''u1''" by simp
    with h1 show ?thesis by blast
  qed
  have a2: "(\<exists>req_user. changePassword demo_lib demo_env demo_rnd demo_db req_user demo_reset_body
                = (Sent (Response 200 ?p2), ?D2) \<and> field ''sub'' req_user = JStr ''u1'')
         \<or> (\<exists>resetToken newPassword decoded.
              resetPassword demo_lib demo_env demo_rnd demo_db demo_reset_body
                = (Sent (Response 200 ?p2), ?D2)
              \<and> resetPasswordSchema demo_reset_body = Some (resetToken, newPassword)
              \<and> jwt_verify demo_lib resetToken (passwordResetSecret demo_env) (now demo_rnd)
                  = Inr decoded
              \<and> field ''sub'' decoded = JStr ''u1'')"
  proof -
    have "resetPasswordSchema demo_reset_body = Some (''P:j9'', ''Better456?'')
      \<and> jwt_verify demo_lib ''P:j9'' (passwordResetSecret demo_env) (now demo_rnd)
        = Inr (JObj [(''sub'', JStr ''u1''), (''email'', JStr ''admin@school.edu''),
                     (''tokenType'', JStr ''password_reset'')])
      \<and> field ''sub'' (JObj [(''sub'', JStr ''u1''), (''email'', JStr ''admin@school.edu''),
                     (''tokenType'', JStr ''password_reset'')]) = JStr ''u1''"
      by (simp add: demo_defs demo_reset_body_def password_eval)
    with h2 show ?thesis by blast
  qed
  have look: "refreshToken_findUnique demo_db (hashToken demo_lib ''R:j1'')
      = Some \<lparr>rt_id = ''t1'', rt_userId = ''u1'', tokenHash = ''R:j1'', rt_expiresAt = 1000,
          revokedAt = None, rt_createdAt = 0\<rparr>"
    by (simp add: demo_defs hashToken_def refreshToken_findUnique_def)
  have parse: "refreshSchema demo_refresh_body = Some ''R:j1''"
    by (simp add: demo_refresh_body_def refreshSchema_def)
  from password_change_revokes_sessions [OF a1]
  have all1: "\<forall>token st cs R' b'.
      refreshToken_findUnique demo_db (hashToken demo_lib token) = Some st \<and> rt_userId st = ''u1''
      \<and> refreshSchema b' = Some token \<longrightarrow>
      (\<exists>msg. refresh demo_lib demo_env R' (run demo_lib demo_env cs ?D1) b'
              = (Sent (unauthorized msg), run demo_lib demo_env cs ?D1))"
    by blast
  have "\<exists>msg. refresh demo_lib demo_env demo_rnd (run demo_lib demo_env [] ?D1) demo_refresh_body
        = (Sent (unauthorized msg), run demo_lib demo_env [] ?D1)"
    by (rule all1 [rule_format, of "''R:j1''"
          "\<lparr>rt_id = ''t1'', rt_userId = ''u1'', tokenHash = ''R:j1'', rt_expiresAt = 1000,
            revokedAt = None, rt_createdAt = 0\<rparr>"])
       (simp add: look parse)
  then have r1: "\<exists>msg. fst (refresh demo_lib demo_env demo_rnd ?D1 demo_refresh_body)
        = Sent (unauthorized msg)"
    by auto
  from password_change_revokes_sessions [OF a2]
  have all2: "\<forall>token st cs R' b'.
      refreshToken_findUnique demo_db (hashToken demo_lib token) = Some st \<and> rt_userId st = ''u1''
      \<and> refreshSchema b' = Some token \<longrightarrow>
      (\<exists>msg. refresh demo_lib demo_env R' (run demo_lib demo_env cs ?D2) b'
              = (Sent (unauthorized msg), run demo_lib demo_env cs ?D2))"
    by blast
  have "\<exists>msg. refresh demo_lib demo_env demo_rnd (run demo_lib demo_env [] ?D2) demo_refresh_body
        = (Sent (unauthorized msg), run demo_lib demo_env [] ?D2)"
    by (rule all2 [rule_format, of "''R:j1''"
          "\<lparr>rt_id = ''t1'', rt_userId = ''u1'', tokenHash = ''R:j1'', rt_expiresAt = 1000,
            revokedAt = None, rt_createdAt = 0\<rparr>"])
       (simp add: look parse)
  then have r2: "\<exists>msg. fst (refresh demo_lib demo_env demo_rnd ?D2 demo_refresh_body)
        = Sent (unauthorized msg)"
    by auto
  show ?thesis using f1 f2 r1 r2 by (simp add: succeeded_def)
qed

section \<open>Properties of the one-time codes\<close>

lemma transaction_preserving:
  "transaction ops D = Inr D' \<Longrightarrow> list_all (preserving P) ops \<Longrightarrow> P D \<Longrightarrow> P D'"
proof (induction ops arbitrary: D)
  case Nil
  then show ?case by simp
next
  case (Cons a ops)
  from Cons.prems(1) obtain M where M: "a D = Inr M" "transaction ops M = Inr D'"
    by (auto split: sum.splits)
  have "P M" using Cons.prems(2,3) M(1) by (simp add: preserving_def)
  then show ?case using Cons.IH [OF M(2)] Cons.prems(2) by simp
qed

lemma otps_kept:
  "preserving (\<lambda>D. Q (passwordResetOtps D)) (user_update i f)"
  "preserving (\<lambda>D. Q (passwordResetOtps D)) (refreshToken_create n c u h x)"
  "preserving (\<lambda>D. Q (passwordResetOtps D)) (refreshToken_update i t)"
  "preserving (\<lambda>D. Q (passwordResetOtps D)) (refreshToken_updateMany wh t)"
  by (auto simp: preserving_def user_update_def refreshToken_create_def refreshToken_update_def
      refreshToken_updateMany_def split: if_splits option.splits)

lemma filter_unused_mark:
  "filter (\<lambda>r. usedAt r = None) (map (\<lambda>r. if Q r then r\<lparr>usedAt := Some t\<rparr> else r) xs)
   = filter (\<lambda>r. \<not> Q r) (filter (\<lambda>r. usedAt r = None) xs)"
  by (induction xs) auto

lemma map_email_mark:
  "map otp_email (filter P (map (\<lambda>r. if Q r then r\<lparr>usedAt := Some t\<rparr> else r) xs))
   = map otp_email (filter (\<lambda>r. P (if Q r then r\<lparr>usedAt := Some t\<rparr> else r)) xs)"
  by (induction xs) auto

lemma one_unused_mark:
  assumes "distinct (map otp_email (filter (\<lambda>r. usedAt r = None) xs))"
  shows "distinct (map otp_email (filter (\<lambda>r. usedAt r = None)
           (map (\<lambda>r. if Q r then r\<lparr>usedAt := Some t\<rparr> else r) xs)))"
  unfolding filter_unused_mark using assms by (rule distinct_map_filter)

lemma one_unused_preserving:
  "preserving one_unused_otp (passwordResetOtp_updateMany e t)"
  "preserving one_unused_otp (passwordResetOtp_update i t)"
  by (auto simp: preserving_def one_unused_otp_def passwordResetOtp_updateMany_def
      passwordResetOtp_update_def one_unused_mark split: if_splits)

lemma one_unused_kept:
  "preserving one_unused_otp (user_update i f)"
  "preserving one_unused_otp (refreshToken_create n c u h x)"
  "preserving one_unused_otp (refreshToken_update i' t)"
  "preserving one_unused_otp (refreshToken_updateMany wh t)"
  unfolding one_unused_otp_def by (rule otps_kept)+

lemma forgot_tx_effect:
  assumes "transaction [passwordResetOtp_updateMany e t, passwordResetOtp_create n c e h x] D = Inr D'"
  shows "passwordResetOtps D' =
      map (\<lambda>r. if otp_email r = e \<and> usedAt r = None then r\<lparr>usedAt := Some t\<rparr> else r)
        (passwordResetOtps D)
      @ [\<lparr>otp_id = n, otp_email = e, otpHash = h, otp_expiresAt = x, usedAt = None,
          otp_createdAt = c\<rparr>]"
    and "users D' = users D" and "refreshTokens D' = refreshTokens D"
    and "find (\<lambda>r. otp_id r = n) (passwordResetOtps D) = None"
  using assms
  by (auto simp: passwordResetOtp_updateMany_def passwordResetOtp_create_def find_map_pres
      split: if_splits)

lemma forgot_tx_only_new:
  assumes "passwordResetOtps D' =
      map (\<lambda>r. if otp_email r = e \<and> usedAt r = None then r\<lparr>usedAt := Some t\<rparr> else r)
        (passwordResetOtps D) @ [new]"
    and "otp_email new = e" and "usedAt new = None"
  shows "filter (\<lambda>r. otp_email r = e \<and> usedAt r = None) (passwordResetOtps D') = [new]"
proof -
  have "filter (\<lambda>r. otp_email r = e \<and> usedAt r = None)
      (map (\<lambda>r. if otp_email r = e \<and> usedAt r = None then r\<lparr>usedAt := Some t\<rparr> else r) xs) = []"
    for xs
    by (induction xs) auto
  then show ?thesis using assms by simp
qed

lemma forgot_tx_one_unused:
  assumes "passwordResetOtps D' =
      map (\<lambda>r. if otp_email r = e \<and> usedAt r = None then r\<lparr>usedAt := Some t\<rparr> else r)
        (passwordResetOtps D) @ [new]"
    and "otp_email new = e" and "one_unused_otp D"
  shows "one_unused_otp D'"
proof -
  have "e \<notin> otp_email ` set (filter (\<lambda>r. usedAt r = None)
      (map (\<lambda>r. if otp_email r = e \<and> usedAt r = None then r\<lparr>usedAt := Some t\<rparr> else r) xs))"
    for xs
    by (induction xs) auto
  moreover have "distinct (map otp_email (filter (\<lambda>r. usedAt r = None)
      (map (\<lambda>r. if otp_email r = e \<and> usedAt r = None then r\<lparr>usedAt := Some t\<rparr> else r)
         (passwordResetOtps D))))"
    using assms(3) unfolding one_unused_otp_def by (rule one_unused_mark)
  ultimately show ?thesis
    unfolding one_unused_otp_def assms(1) using assms(2) by auto
qed

lemma forgotPassword_changed_cases:
  assumes "snd (forgotPassword L E R D b) \<noteq> D"
  obtains email u where
    "forgotPasswordSchema L b = Some email"
    "user_findUnique_email D (toLowerCase L email) = Some u" "isActive u"
    "transaction
       [passwordResetOtp_updateMany (toLowerCase L email) (now R),
        passwordResetOtp_create (newRowId R) (now R) (toLowerCase L email)
          (bcrypt_hash L (randomOtp R) (salt R))
          (now R + PASSWORD_RESET_OTP_EXPIRES_MINUTES E * 60 * 1000)] D
     = Inr (snd (forgotPassword L E R D b))"
  using assms unfolding forgotPassword_def Let_def
  by (auto simp del: transaction.simps split: option.splits sum.splits if_splits)

lemma login_one_unused: "one_unused_otp D \<Longrightarrow> one_unused_otp (snd (login L E R D b))"
  unfolding login_def Let_def
  by (auto simp del: transaction.simps simp: one_unused_kept
      split: option.splits sum.splits prod.splits dest!: transaction_preserving)

lemma refresh_one_unused: "one_unused_otp D \<Longrightarrow> one_unused_otp (snd (refresh L E R D b))"
  unfolding refresh_def Let_def
  by (auto simp del: transaction.simps simp: one_unused_kept
      split: option.splits sum.splits prod.splits dest!: transaction_preserving)

lemma logout_one_unused: "one_unused_otp D \<Longrightarrow> one_unused_otp (snd (logout L E R D b))"
  unfolding logout_def
  using one_unused_kept(4)
  by (auto simp: preserving_def split: option.splits sum.splits)

lemma forgotPassword_one_unused:
  assumes "one_unused_otp D"
  shows "one_unused_otp (snd (forgotPassword L E R D b))"
proof (cases "snd (forgotPassword L E R D b) = D")
  case True
  then show ?thesis using assms by simp
next
  case False
  then obtain email where
    "transaction
       [passwordResetOtp_updateMany (toLowerCase L email) (now R),
        passwordResetOtp_create (newRowId R) (now R) (toLowerCase L email)
          (bcrypt_hash L (randomOtp R) (salt R))
          (now R + PASSWORD_RESET_OTP_EXPIRES_MINUTES E * 60 * 1000)] D
     = Inr (snd (forgotPassword L E R D b))"
    by (rule forgotPassword_changed_cases)
  from forgot_tx_effect(1) [OF this] show ?thesis
    by (rule forgot_tx_one_unused) (simp_all add: assms)
qed

lemma verifyOtp_one_unused: "one_unused_otp D \<Longrightarrow> one_unused_otp (snd (verifyOtp L E R D b))"
  unfolding verifyOtp_def Let_def
  using one_unused_preserving(2)
  by (auto simp: preserving_def split: option.splits sum.splits prod.splits)

lemma resetPassword_one_unused:
  "one_unused_otp D \<Longrightarrow> one_unused_otp (snd (resetPassword L E R D b))"
  unfolding resetPassword_def Let_def
  by (auto simp del: transaction.simps simp: one_unused_kept one_unused_preserving
      split: option.splits sum.splits prod.splits json.splits dest!: transaction_preserving)

lemma changePassword_one_unused:
  "one_unused_otp D \<Longrightarrow> one_unused_otp (snd (changePassword L E R D u b))"
  unfolding changePassword_def Let_def
  by (auto simp del: transaction.simps simp: one_unused_kept
      split: option.splits sum.splits prod.splits json.splits dest!: transaction_preserving)

lemma handle_one_unused: "one_unused_otp D \<Longrightarrow> one_unused_otp (snd (handle L E D c))"
  by (cases c; cases "snd c")
    (simp_all add: login_one_unused refresh_one_unused logout_one_unused
      forgotPassword_one_unused verifyOtp_one_unused resetPassword_one_unused
      changePassword_one_unused)

lemma run_one_unused: "one_unused_otp D \<Longrightarrow> one_unused_otp (run L E cs D)"
  by (induction cs arbitrary: D) (simp_all add: handle_one_unused)

lemma consumed_kept:
  "preserving (otp_consumed j) (user_update i f)"
  "preserving (otp_consumed j) (refreshToken_create n c u h x)"
  "preserving (otp_consumed j) (refreshToken_update i' t)"
  "preserving (otp_consumed j) (refreshToken_updateMany wh t)"
  unfolding otp_consumed_def by (rule otps_kept)+

lemma find_id_mark:
  "find (\<lambda>r. otp_id r = j) (map (\<lambda>r. if Q r then r\<lparr>usedAt := Some t\<rparr> else r) xs) = None
   \<longleftrightarrow> find (\<lambda>r. otp_id r = j) xs = None"
  by (induction xs) auto

lemma used_mark:
  "list_all (\<lambda>r. otp_id r = j \<longrightarrow> usedAt r \<noteq> None) xs \<Longrightarrow>
   list_all (\<lambda>r. otp_id r = j \<longrightarrow> usedAt r \<noteq> None)
     (map (\<lambda>r. if Q r then r\<lparr>usedAt := Some t\<rparr> else r) xs)"
  by (induction xs) auto

lemma consumed_mark:
  assumes "otp_consumed j A"
    and "passwordResetOtps B = map (\<lambda>r. if Q r then r\<lparr>usedAt := Some t\<rparr> else r) (passwordResetOtps A)"
  shows "otp_consumed j B"
  using assms unfolding otp_consumed_def by (simp only: find_id_mark used_mark simp_thms)

lemma consumed_preserving:
  "preserving (otp_consumed j) (passwordResetOtp_updateMany e t)"
  "preserving (otp_consumed j) (passwordResetOtp_update i t)"
  "preserving (otp_consumed j) (passwordResetOtp_create n c e h x)"
proof -
  show "preserving (otp_consumed j) (passwordResetOtp_updateMany e t)"
    unfolding preserving_def
  proof (intro allI impI)
    fix A B
    assume "passwordResetOtp_updateMany e t A = Inr B" and c: "otp_consumed j A"
    then have "passwordResetOtps B =
        map (\<lambda>r. if otp_email r = e \<and> usedAt r = None then r\<lparr>usedAt := Some t\<rparr> else r)
          (passwordResetOtps A)"
      by (auto simp: passwordResetOtp_updateMany_def)
    with c show "otp_consumed j B" by (rule consumed_mark)
  qed
  show "preserving (otp_consumed j) (passwordResetOtp_update i t)"
    unfolding preserving_def
  proof (intro allI impI)
    fix A B
    assume "passwordResetOtp_update i t A = Inr B" and c: "otp_consumed j A"
    then have "passwordResetOtps B =
        map (\<lambda>r. if otp_id r = i then r\<lparr>usedAt := Some t\<rparr> else r) (passwordResetOtps A)"
      by (auto simp: passwordResetOtp_update_def split: if_splits)
    with c show "otp_consumed j B" by (rule consumed_mark)
  qed
  show "preserving (otp_consumed j) (passwordResetOtp_create n c e h x)"
    unfolding preserving_def
  proof (intro allI impI)
    fix A B
    assume "passwordResetOtp_create n c e h x A = Inr B" and c: "otp_consumed j A"
    then have B: "passwordResetOtps B = passwordResetOtps A
          @ [\<lparr>otp_id = n, otp_email = e, otpHash = h, otp_expiresAt = x, usedAt = None,
              otp_createdAt = c\<rparr>]"
      and fresh: "find (\<lambda>r. otp_id r = n) (passwordResetOtps A) = None"
      by (auto simp: passwordResetOtp_create_def split: if_splits)
    from c fresh have "n \<noteq> j" by (auto simp: otp_consumed_def)
    with c show "otp_consumed j B"
      unfolding otp_consumed_def B by (auto simp: find_append_case split: option.splits)
  qed
qed

lemmas consumed_ops = consumed_kept consumed_preserving

lemma login_consumed: "otp_consumed j D \<Longrightarrow> otp_consumed j (snd (login L E R D b))"
  unfolding login_def Let_def
  by (auto simp del: transaction.simps simp: consumed_ops
      split: option.splits sum.splits prod.splits dest!: transaction_preserving)

lemma refresh_consumed: "otp_consumed j D \<Longrightarrow> otp_consumed j (snd (refresh L E R D b))"
  unfolding refresh_def Let_def
  by (auto simp del: transaction.simps simp: consumed_ops
      split: option.splits sum.splits prod.splits dest!: transaction_preserving)

lemma logout_consumed: "otp_consumed j D \<Longrightarrow> otp_consumed j (snd (logout L E R D b))"
  unfolding logout_def
  using consumed_kept(4)
  by (auto simp: preserving_def split: option.splits sum.splits)

lemma forgotPassword_consumed:
  "otp_consumed j D \<Longrightarrow> otp_consumed j (snd (forgotPassword L E R D b))"
  unfolding forgotPassword_def Let_def
  by (auto simp del: transaction.simps simp: consumed_ops
      split: option.splits sum.splits prod.splits dest!: transaction_preserving)

lemma verifyOtp_consumed: "otp_consumed j D \<Longrightarrow> otp_consumed j (snd (verifyOtp L E R D b))"
  unfolding verifyOtp_def Let_def
  using consumed_preserving(2)
  by (auto simp: preserving_def split: option.splits sum.splits prod.splits)

lemma resetPassword_consumed:
  "otp_consumed j D \<Longrightarrow> otp_consumed j (snd (resetPassword L E R D b))"
  unfolding resetPassword_def Let_def
  by (auto simp del: transaction.simps simp: consumed_ops
      split: option.splits sum.splits prod.splits json.splits dest!: transaction_preserving)

lemma changePassword_consumed:
  "otp_consumed j D \<Longrightarrow> otp_consumed j (snd (changePassword L E R D u b))"
  unfolding changePassword_def Let_def
  by (auto simp del: transaction.simps simp: consumed_ops
      split: option.splits sum.splits prod.splits json.splits dest!: transaction_preserving)

lemma handle_consumed: "otp_consumed j D \<Longrightarrow> otp_consumed j (snd (handle L E D c))"
  by (cases c; cases "snd c")
    (simp_all add: login_consumed refresh_consumed logout_consumed
      forgotPassword_consumed verifyOtp_consumed resetPassword_consumed
      changePassword_consumed)

lemma run_consumed: "otp_consumed j D \<Longrightarrow> otp_consumed j (run L E cs D)"
  by (induction cs arbitrary: D) (simp_all add: handle_consumed)

lemma newest_mem: "newest xs = Some r \<Longrightarrow> r \<in> set xs"
  by (induction xs arbitrary: r) (auto split: option.splits if_splits)

lemma newest_single: "length xs \<le> 1 \<Longrightarrow> newest xs = Some r \<Longrightarrow> xs = [r]"
  by (cases xs) (auto split: option.splits)

lemma distinct_key_filter: "distinct (map f xs) \<Longrightarrow> length (filter (\<lambda>x. f x = e) xs) \<le> 1"
proof (induction xs)
  case Nil
  then show ?case by simp
next
  case (Cons a xs)
  show ?case
  proof (cases "f a = e")
    case True
    with Cons.prems have "filter (\<lambda>x. f x = e) xs = []"
      by (force simp: filter_empty_conv image_iff)
    with True show ?thesis by simp
  next
    case False
    with Cons show ?thesis by simp
  qed
qed

lemma findFirst_only:
  assumes "one_unused_otp D" and "passwordResetOtp_findFirst D e = Some record"
  shows "filter (\<lambda>r. otp_email r = e \<and> usedAt r = None) (passwordResetOtps D) = [record]"
proof -
  have "filter (\<lambda>r. otp_email r = e \<and> usedAt r = None) (passwordResetOtps D)
      = filter (\<lambda>r. otp_email r = e) (filter (\<lambda>r. usedAt r = None) (passwordResetOtps D))"
    by (simp add: conj_commute)
  moreover have "length (filter (\<lambda>r. otp_email r = e)
      (filter (\<lambda>r. usedAt r = None) (passwordResetOtps D))) \<le> 1"
    using assms(1) unfolding one_unused_otp_def by (rule distinct_key_filter)
  ultimately have "length (filter (\<lambda>r. otp_email r = e \<and> usedAt r = None) (passwordResetOtps D)) \<le> 1"
    by simp
  then show ?thesis
    using assms(2) unfolding passwordResetOtp_findFirst_def by (rule newest_single)
qed

lemma filter_map_empty: "(\<And>x. x \<in> set xs \<Longrightarrow> \<not> P (f x)) \<Longrightarrow> filter P (map f xs) = []"
  by (induction xs) auto

lemma findFirst_after_use:
  assumes "one_unused_otp D" and "passwordResetOtp_findFirst D e = Some record"
    and "passwordResetOtps D' =
      map (\<lambda>r. if otp_id r = otp_id record then r\<lparr>usedAt := Some t\<rparr> else r) (passwordResetOtps D)"
  shows "passwordResetOtp_findFirst D' e = None"
proof -
  have only: "filter (\<lambda>r. otp_email r = e \<and> usedAt r = None) (passwordResetOtps D) = [record]"
    using assms(1,2) by (rule findFirst_only)
  have "\<not> (otp_email (if otp_id x = otp_id record then x\<lparr>usedAt := Some t\<rparr> else x) = e
          \<and> usedAt (if otp_id x = otp_id record then x\<lparr>usedAt := Some t\<rparr> else x) = None)"
    if "x \<in> set (passwordResetOtps D)" for x
  proof (cases "otp_id x = otp_id record")
    case True
    then show ?thesis by simp
  next
    case False
    have "x \<notin> set (filter (\<lambda>r. otp_email r = e \<and> usedAt r = None) (passwordResetOtps D))"
      unfolding only using False by auto
    then show ?thesis using that False by simp
  qed
  then have "filter (\<lambda>r. otp_email r = e \<and> usedAt r = None) (passwordResetOtps D') = []"
    unfolding assms(3) by (rule filter_map_empty)
  then show ?thesis by (simp add: passwordResetOtp_findFirst_def)
qed

lemma consumed_after_use:
  assumes "passwordResetOtp_findFirst D e = Some record"
    and "passwordResetOtps D' =
      map (\<lambda>r. if otp_id r = otp_id record then r\<lparr>usedAt := Some t\<rparr> else r) (passwordResetOtps D)"
  shows "otp_consumed (otp_id record) D'"
proof -
  have "record \<in> set (passwordResetOtps D)"
    using newest_mem [OF assms(1) [unfolded passwordResetOtp_findFirst_def]] by simp
  then have "find (\<lambda>r. otp_id r = otp_id record) (passwordResetOtps D) \<noteq> None"
    by (auto simp: find_None_iff)
  then have "find (\<lambda>r. otp_id r = otp_id record) (passwordResetOtps D') \<noteq> None"
    unfolding assms(2) by (simp add: find_id_mark)
  moreover have "list_all (\<lambda>r. otp_id r = j \<longrightarrow> usedAt r \<noteq> None)
      (map (\<lambda>r. if otp_id r = j then r\<lparr>usedAt := Some t\<rparr> else r) xs)" for j xs
    by (induction xs) auto
  then have "list_all (\<lambda>r. otp_id r = otp_id record \<longrightarrow> usedAt r \<noteq> None) (passwordResetOtps D')"
    unfolding assms(2) .
  ultimately show ?thesis by (simp add: otp_consumed_def)
qed

lemma consumed_never_found:
  assumes "otp_consumed j D" and "passwordResetOtp_findFirst D e = Some r"
  shows "otp_id r \<noteq> j"
proof -
  have "r \<in> set (filter (\<lambda>r. otp_email r = e \<and> usedAt r = None) (passwordResetOtps D))"
    using assms(2) unfolding passwordResetOtp_findFirst_def by (rule newest_mem)
  then have "r \<in> set (passwordResetOtps D)" "usedAt r = None" by simp_all
  then show ?thesis using assms(1) by (auto simp: otp_consumed_def list_all_iff)
qed

lemma verifyOtp_success_cases:
  assumes "verifyOtp L E R D b = (Sent (Response 200 p), D')"
  obtains email otp row where
    "verifyOtpSchema L b = Some (email, otp)"
    "passwordResetOtp_findFirst D (toLowerCase L email) = Some row"
    "\<not> otp_expiresAt row \<le> now R" "bcrypt_compare L otp (otpHash row)"
    "passwordResetOtps D' =
      map (\<lambda>r. if otp_id r = otp_id row then r\<lparr>usedAt := Some (now R)\<rparr> else r)
        (passwordResetOtps D)"
  using assms unfolding verifyOtp_def Let_def invalidOtp_def passwordResetOtp_update_def
  by (auto split: option.splits sum.splits if_splits)

lemma verifyOtp_none:
  assumes "verifyOtpSchema L b = Some (email, otp)"
    and "passwordResetOtp_findFirst D (toLowerCase L email) = None"
  shows "verifyOtp L E R D b = (Sent invalidOtp, D)"
  using assms by (simp add: verifyOtp_def)

text \<open>
  Claim C3. The OTP table starts empty, and every request keeps the invariant that each
  email has at most one unused OTP row; \<open>verifyOtp\<close> looks at the newest unused row of
  the email only. Under the invariant, a successful verify-otp sets \<open>usedAt\<close> on the row
  it matched; a second verify-otp for the same email, with any code and at any time, is
  then answered "Invalid or expired OTP" and changes nothing; and whatever requests
  follow, no later verify-otp ever selects the matched row again. A forgot-password call
  that changes the store does so in one transaction: it sets \<open>usedAt\<close> on every unused
  row of the email and adds the new row, which is then the only unused row of the email.
\<close>

theorem otp_single_use:
  "one_unused_otp (D\<lparr>passwordResetOtps := []\<rparr>)
   \<and> (one_unused_otp D \<longrightarrow> one_unused_otp (run L E cs D))
   \<and> (one_unused_otp D \<and> verifyOtp L E R D b = (Sent (Response 200 p), D') \<longrightarrow>
        (\<exists>email otp row.
           verifyOtpSchema L b = Some (email, otp)
           \<and> passwordResetOtp_findFirst D (toLowerCase L email) = Some row
           \<and> passwordResetOtps D' =
               map (\<lambda>r. if otp_id r = otp_id row then r\<lparr>usedAt := Some (now R)\<rparr> else r)
                 (passwordResetOtps D)
           \<and> (\<forall>R' b' email' otp'.
                 verifyOtpSchema L b' = Some (email', otp')
                 \<and> toLowerCase L email' = toLowerCase L email \<longrightarrow>
                 verifyOtp L E R' D' b' = (Sent invalidOtp, D'))
           \<and> (\<forall>cs' e r. passwordResetOtp_findFirst (run L E cs' D') e = Some r \<longrightarrow>
                 otp_id r \<noteq> otp_id row)))
   \<and> (forgotPassword L E R D b = (out, D'') \<and> D'' \<noteq> D \<longrightarrow>
        (\<exists>email.
           forgotPasswordSchema L b = Some email
           \<and> passwordResetOtps D'' =
               map (\<lambda>r. if otp_email r = toLowerCase L email \<and> usedAt r = None
                         then r\<lparr>usedAt := Some (now R)\<rparr> else r) (passwordResetOtps D)
               @ [\<lparr>otp_id = newRowId R, otp_email = toLowerCase L email,
                   otpHash = bcrypt_hash L (randomOtp R) (salt R),
                   otp_expiresAt = now R + PASSWORD_RESET_OTP_EXPIRES_MINUTES E * 60 * 1000,
                   usedAt = None, otp_createdAt = now R\<rparr>]
           \<and> filter (\<lambda>r. otp_email r = toLowerCase L email \<and> usedAt r = None)
                 (passwordResetOtps D'')
               = [\<lparr>otp_id = newRowId R, otp_email = toLowerCase L email,
                   otpHash = bcrypt_hash L (randomOtp R) (salt R),
                   otp_expiresAt = now R + PASSWORD_RESET_OTP_EXPIRES_MINUTES E * 60 * 1000,
                   usedAt = None, otp_createdAt = now R\<rparr>]
           \<and> users D'' = users D \<and> refreshTokens D'' = refreshTokens D))"
proof (intro conjI impI)
  show "one_unused_otp (D\<lparr>passwordResetOtps := []\<rparr>)" by (simp add: one_unused_otp_def)
next
  assume "one_unused_otp D"
  then show "one_unused_otp (run L E cs D)" by (rule run_one_unused)
next
  assume a: "one_unused_otp D \<and> verifyOtp L E R D b = (Sent (Response 200 p), D')"
  then obtain email otp row where c:
    "verifyOtpSchema L b = Some (email, otp)"
    "passwordResetOtp_findFirst D (toLowerCase L email) = Some row"
    "passwordResetOtps D' =
      map (\<lambda>r. if otp_id r = otp_id row then r\<lparr>usedAt := Some (now R)\<rparr> else r)
        (passwordResetOtps D)"
    by (blast elim: verifyOtp_success_cases)
  have gone: "passwordResetOtp_findFirst D' (toLowerCase L email) = None"
    using a c(2,3) by (blast intro: findFirst_after_use)
  have again: "verifyOtp L E R' D' b' = (Sent invalidOtp, D')"
    if "verifyOtpSchema L b' = Some (email', otp')"
      and "toLowerCase L email' = toLowerCase L email" for R' b' email' otp'
    using that(1) gone unfolding that(2) [symmetric] by (rule verifyOtp_none)
  have used: "otp_consumed (otp_id row) D'" using c(2,3) by (rule consumed_after_use)
  have never: "otp_id r \<noteq> otp_id row"
    if "passwordResetOtp_findFirst (run L E cs' D') e = Some r" for cs' e r
    using run_consumed [OF used] that by (rule consumed_never_found)
  show "\<exists>email otp row.
           verifyOtpSchema L b = Some (email, otp)
           \<and> passwordResetOtp_findFirst D (toLowerCase L email) = Some row
           \<and> passwordResetOtps D' =
               map (\<lambda>r. if otp_id r = otp_id row then r\<lparr>usedAt := Some (now R)\<rparr> else r)
                 (passwordResetOtps D)
           \<and> (\<forall>R' b' email' otp'.
                 verifyOtpSchema L b' = Some (email', otp')
                 \<and> toLowerCase L email' = toLowerCase L email \<longrightarrow>
                 verifyOtp L E R' D' b' = (Sent invalidOtp, D'))
           \<and> (\<forall>cs' e r. passwordResetOtp_findFirst (run L E cs' D') e = Some r \<longrightarrow>
                 otp_id r \<noteq> otp_id row)"
    using c again never by blast
next
  assume a: "forgotPassword L E R D b = (out, D'') \<and> D'' \<noteq> D"
  then have "snd (forgotPassword L E R D b) \<noteq> D" and D'': "snd (forgotPassword L E R D b) = D''"
    by simp_all
  then obtain email where c: "forgotPasswordSchema L b = Some email"
    "transaction
       [passwordResetOtp_updateMany (toLowerCase L email) (now R),
        passwordResetOtp_create (newRowId R) (now R) (toLowerCase L email)
          (bcrypt_hash L (randomOtp R) (salt R))
          (now R + PASSWORD_RESET_OTP_EXPIRES_MINUTES E * 60 * 1000)] D = Inr D''"
    by (metis forgotPassword_changed_cases)
  note eff = forgot_tx_effect [OF c(2)]
  have only: "filter (\<lambda>r. otp_email r = toLowerCase L email \<and> usedAt r = None)
                 (passwordResetOtps D'')
               = [\<lparr>otp_id = newRowId R, otp_email = toLowerCase L email,
                   otpHash = bcrypt_hash L (randomOtp R) (salt R),
                   otp_expiresAt = now R + PASSWORD_RESET_OTP_EXPIRES_MINUTES E * 60 * 1000,
                   usedAt = None, otp_createdAt = now R\<rparr>]"
    using eff(1) by (rule forgot_tx_only_new) simp_all
  show "\<exists>email.
           forgotPasswordSchema L b = Some email
           \<and> passwordResetOtps D'' =
               map (\<lambda>r. if otp_email r = toLowerCase L email \<and> usedAt r = None
                         then r\<lparr>usedAt := Some (now R)\<rparr> else r) (passwordResetOtps D)
               @ [\<lparr>otp_id = newRowId R, otp_email = toLowerCase L email,
                   otpHash = bcrypt_hash L (randomOtp R) (salt R),
                   otp_expiresAt = now R + PASSWORD_RESET_OTP_EXPIRES_MINUTES E * 60 * 1000,
                   usedAt = None, otp_createdAt = now R\<rparr>]
           \<and> filter (\<lambda>r. otp_email r = toLowerCase L email \<and> usedAt r = None)
                 (passwordResetOtps D'')
               = [\<lparr>otp_id = newRowId R, otp_email = toLowerCase L email,
                   otpHash = bcrypt_hash L (randomOtp R) (salt R),
                   otp_expiresAt = now R + PASSWORD_RESET_OTP_EXPIRES_MINUTES E * 60 * 1000,
                   usedAt = None, otp_createdAt = now R\<rparr>]
           \<and> users D'' = users D \<and> refreshTokens D'' = refreshTokens D"
    using c(1) eff(1,2,3) only by blast
qed

theorem otp_single_use_witness:
  "one_unused_otp demo_otp_db
   \<and> succeeded (fst (verifyOtp demo_lib demo_env demo_rnd demo_otp_db demo_verify_body))
   \<and> verifyOtp demo_lib demo_env demo_rnd
        (snd (verifyOtp demo_lib demo_env demo_rnd demo_otp_db demo_verify_body)) demo_verify_body
      = (Sent invalidOtp, snd (verifyOtp demo_lib demo_env demo_rnd demo_otp_db demo_verify_body))
   \<and> filter (\<lambda>r. otp_email r = ''admin@school.edu'' \<and> usedAt r = None)
        (passwordResetOtps (snd (forgotPassword demo_lib demo_env demo_rnd demo_otp_db demo_forgot_body)))
      = [\<lparr>otp_id = ''t2'', otp_email = ''admin@school.edu'', otpHash = ''123456'',
          otp_expiresAt = 600005, usedAt = None, otp_createdAt = 5\<rparr>]"
proof -
  let ?p = "success_body [(''resetToken'', JStr ''P:j2''), (''expiresIn'', JStr ''10m'')]"
  let ?D1 = "snd (verifyOtp demo_lib demo_env demo_rnd demo_otp_db demo_verify_body)"
  let ?D2 = "snd (forgotPassword demo_lib demo_env demo_rnd demo_otp_db demo_forgot_body)"
  have inv: "one_unused_otp demo_otp_db"
    by (simp add: one_unused_otp_def demo_otp_db_def)
  have f1: "fst (verifyOtp demo_lib demo_env demo_rnd demo_otp_db demo_verify_body)
      = Sent (Response 200 ?p)"
    by (simp add: demo_defs demo_otp_db_def demo_verify_body_def verify_eval)
  then have h1: "verifyOtp demo_lib demo_env demo_rnd demo_otp_db demo_verify_body
      = (Sent (Response 200 ?p), ?D1)"
    by (cases "verifyOtp demo_lib demo_env demo_rnd demo_otp_db demo_verify_body") simp
  have parse: "verifyOtpSchema demo_lib demo_verify_body = Some (''admin@school.edu'', ''654321'')"
    by (simp add: demo_defs demo_verify_body_def verify_eval)
  have h2: "forgotPassword demo_lib demo_env demo_rnd demo_otp_db demo_forgot_body
      = (fst (forgotPassword demo_lib demo_env demo_rnd demo_otp_db demo_forgot_body), ?D2)"
    by simp
  have ne: "?D2 \<noteq> demo_otp_db"
    by (simp add: demo_defs demo_otp_db_def demo_forgot_body_def forgot_eval)
  have fp: "forgotPasswordSchema demo_lib demo_forgot_body = Some ''admin@school.edu''"
    by (simp add: demo_defs demo_forgot_body_def forgot_eval)
  note thm1 = otp_single_use [where D = demo_otp_db and L = demo_lib and E = demo_env
      and R = demo_rnd and p = ?p and D' = ?D1]
  from thm1 [where b = demo_verify_body, THEN conjunct2, THEN conjunct2, THEN conjunct1,
      THEN mp, OF conjI [OF inv h1]]
  obtain email otp where e: "verifyOtpSchema demo_lib demo_verify_body = Some (email, otp)"
    and l: "\<forall>R' b' email' otp'.
                 verifyOtpSchema demo_lib b' = Some (email', otp')
                 \<and> toLowerCase demo_lib email' = toLowerCase demo_lib email \<longrightarrow>
                 verifyOtp demo_lib demo_env R' ?D1 b' = (Sent invalidOtp, ?D1)"
    by blast
  from e parse have "email = ''admin@school.edu''" by simp
  with l parse have second: "verifyOtp demo_lib demo_env demo_rnd ?D1 demo_verify_body
      = (Sent invalidOtp, ?D1)"
    by blast
  from thm1 [where b = demo_forgot_body and D'' = ?D2
      and out = "fst (forgotPassword demo_lib demo_env demo_rnd demo_otp_db demo_forgot_body)",
      THEN conjunct2, THEN conjunct2, THEN conjunct2, THEN mp, OF conjI [OF h2 ne]]
  obtain email2 where e2: "forgotPasswordSchema demo_lib demo_forgot_body = Some email2"
    and l2: "filter (\<lambda>r. otp_email r = toLowerCase demo_lib email2 \<and> usedAt r = None)
          (passwordResetOtps ?D2)
        = [\<lparr>otp_id = newRowId demo_rnd, otp_email = toLowerCase demo_lib email2,
            otpHash = bcrypt_hash demo_lib (randomOtp demo_rnd) (salt demo_rnd),
            otp_expiresAt = now demo_rnd + PASSWORD_RESET_OTP_EXPIRES_MINUTES demo_env * 60 * 1000,
            usedAt = None, otp_createdAt = now demo_rnd\<rparr>]"
    by blast
  from e2 fp have "email2 = ''admin@school.edu''" by simp
  with l2 have "filter (\<lambda>r. otp_email r = toLowerCase demo_lib ''admin@school.edu'' \<and> usedAt r = None)
          (passwordResetOtps ?D2)
        = [\<lparr>otp_id = newRowId demo_rnd, otp_email = toLowerCase demo_lib ''admin@school.edu'',
            otpHash = bcrypt_hash demo_lib (randomOtp demo_rnd) (salt demo_rnd),
            otp_expiresAt = now demo_rnd + PASSWORD_RESET_OTP_EXPIRES_MINUTES demo_env * 60 * 1000,
            usedAt = None, otp_createdAt = now demo_rnd\<rparr>]"
    by simp
  then have third: "filter (\<lambda>r. otp_email r = ''admin@school.edu'' \<and> usedAt r = None)
        (passwordResetOtps ?D2)
      = [\<lparr>otp_id = ''t2'', otp_email = ''admin@school.edu'', otpHash = ''123456'',
          otp_expiresAt = 600005, usedAt = None, otp_createdAt = 5\<rparr>]"
    by (simp add: demo_lib_def demo_rnd_def demo_env_def)
  show ?thesis using inv f1 second third by (simp add: succeeded_def)
qed

end
